theory Spec2Isabelle
  imports Main "HOL-Library.Log_Nat"
begin

section \<open>Python values used by the program\<close>

text \<open>
  Both source files, \<^verbatim>\<open>main.py\<close> and \<^verbatim>\<open>chord_generator.py\<close>, define
  \<^verbatim>\<open>note_to_midi\<close> with the same text and \<^verbatim>\<open>create_midi\<close> with the same loop.
  A Python \<^verbatim>\<open>str\<close> is modelled as a \<open>string\<close> whose characters are the code points
  below 256, an \<^verbatim>\<open>int\<close> as an \<open>int\<close>. Every exception the code can raise is a value
  of \<open>error\<close>; a \<^verbatim>\<open>ValueError\<close> carries its message. The arguments have the types the
  docstrings give them: a chord is a list of strings, \<^verbatim>\<open>chord_duration\<close> a float,
  \<^verbatim>\<open>tempo\<close> an integer.
\<close>

datatype error = ValueError string | ZeroDivisionError | OverflowError

subsection \<open>\<^verbatim>\<open>str.strip\<close>, \<^verbatim>\<open>str.upper\<close>, \<^verbatim>\<open>int(str)\<close>, \<^verbatim>\<open>str(int)\<close>\<close>

text \<open>The code points below 256 for which \<^verbatim>\<open>str.isspace\<close> holds.\<close>

definition isspace :: "char \<Rightarrow> bool" where
  "isspace c \<longleftrightarrow> c \<in> set [CHR 0x09, CHR 0x0A, CHR 0x0B, CHR 0x0C, CHR 0x0D,
                         CHR 0x1C, CHR 0x1D, CHR 0x1E, CHR 0x1F, CHR 0x20, CHR 0x85, CHR 0xA0]"

definition strip :: "string \<Rightarrow> string" where
  "strip s = rev (dropWhile isspace (rev (dropWhile isspace s)))"

text \<open>
  \<^verbatim>\<open>note[0].upper()\<close>. The result is only ever used as a key of \<^verbatim>\<open>note_base\<close>,
  whose keys start with one of A to G, and only the ASCII letters have an upper case
  among those; the other characters are left as they are.
\<close>

definition upper :: "char \<Rightarrow> char" where
  "upper c = (case map_of (zip ''abcdefghijklmnopqrstuvwxyz'' ''ABCDEFGHIJKLMNOPQRSTUVWXYZ'') c of
                Some u \<Rightarrow> u | None \<Rightarrow> c)"

definition digit_val :: "char \<Rightarrow> nat option" where
  "digit_val c = map_of (zip ''0123456789'' [0, 1, 2, 3, 4, 5, 6, 7, 8, 9]) c"

text \<open>
  The digits of a decimal literal after its first digit: a single underscore may
  stand between two digits.
\<close>

fun py_digits :: "nat \<Rightarrow> string \<Rightarrow> nat option" where
  "py_digits acc [] = Some acc"
| "py_digits acc (c # cs) =
     (if c = CHR ''_'' then
        (case cs of
           [] \<Rightarrow> None
         | d # ds \<Rightarrow> (case digit_val d of None \<Rightarrow> None | Some v \<Rightarrow> py_digits (10 * acc + v) ds))
      else (case digit_val c of None \<Rightarrow> None | Some v \<Rightarrow> py_digits (10 * acc + v) cs))"

definition py_int_literal :: "string \<Rightarrow> nat option" where
  "py_int_literal s =
     (case s of
        [] \<Rightarrow> None
      | c # cs \<Rightarrow> (case digit_val c of None \<Rightarrow> None | Some v \<Rightarrow> py_digits v cs))"

text \<open>
  \<^verbatim>\<open>int(s)\<close> for a string: surrounding whitespace is dropped, then an optional sign,
  then a decimal literal. \<open>None\<close> is Python's \<^verbatim>\<open>ValueError\<close>. The whitespace \<^verbatim>\<open>int\<close> skips
  is not that of \<^verbatim>\<open>str.strip\<close>: the four separators \<^verbatim>\<open>0x1C\<close> to \<^verbatim>\<open>0x1F\<close> are not
  skipped. The interpreter's limit on the number of digits (4300 unless
  \<^verbatim>\<open>sys.set_int_max_str_digits\<close> changes it) is a setting of the interpreter and is not
  modelled.
\<close>

definition int_space :: "char \<Rightarrow> bool" where
  "int_space c \<longleftrightarrow> c \<in> set [CHR 0x09, CHR 0x0A, CHR 0x0B, CHR 0x0C, CHR 0x0D, CHR 0x20,
                           CHR 0x85, CHR 0xA0]"

definition int_strip :: "string \<Rightarrow> string" where
  "int_strip s = rev (dropWhile int_space (rev (dropWhile int_space s)))"

definition py_int :: "string \<Rightarrow> int option" where
  "py_int s =
     (case int_strip s of
        [] \<Rightarrow> None
      | c # cs \<Rightarrow>
          if c = CHR ''-'' then map_option (\<lambda>n. - int n) (py_int_literal cs)
          else if c = CHR ''+'' then map_option int (py_int_literal cs)
          else map_option int (py_int_literal (c # cs)))"

text \<open>The value of a digit string read from the left, used to state what \<open>py_digits\<close> computes.\<close>

definition dval :: "nat \<Rightarrow> char \<Rightarrow> nat" where
  "dval a c = 10 * a + the (digit_val c)"

text \<open>\<^verbatim>\<open>str(o)\<close> for an integer: a minus sign for a negative number, then the decimal digits.\<close>

fun py_str_nat :: "nat \<Rightarrow> string" where
  "py_str_nat n =
     (if n < 10 then [''0123456789'' ! n]
      else py_str_nat (n div 10) @ [''0123456789'' ! (n mod 10)])"

declare py_str_nat.simps [simp del]

definition py_str :: "int \<Rightarrow> string" where
  "py_str i = (if i < 0 then CHR ''-'' # py_str_nat (nat (- i)) else py_str_nat (nat i))"

section \<open>The pitch resolver: \<^verbatim>\<open>note_to_midi\<close>\<close>

text \<open>The dictionary \<^verbatim>\<open>note_base\<close>, with its twelve keys.\<close>

definition note_base :: "string \<rightharpoonup> int" where
  "note_base = map_of
     [(''C'', 0), (''C#'', 1), (''D'', 2), (''D#'', 3), (''E'', 4), (''F'', 5),
      (''F#'', 6), (''G'', 7), (''G#'', 8), (''A'', 9), (''A#'', 10), (''B'', 11)]"

text \<open>
  The two variables set by \<^verbatim>\<open>if len(note) >= 3 and note[1] in ['#', 'b']\<close>, for a
  stripped note of at least two characters.
\<close>

definition accidental_of :: "string \<Rightarrow> string" where
  "accidental_of note =
     (if 3 \<le> length note \<and> note ! 1 \<in> set [CHR ''#'', CHR ''b''] then [note ! 1] else [])"

definition octave_str_of :: "string \<Rightarrow> string" where
  "octave_str_of note =
     (if 3 \<le> length note \<and> note ! 1 \<in> set [CHR ''#'', CHR ''b''] then drop 2 note
      else drop 1 note)"

definition note_to_midi :: "string \<Rightarrow> error + int" where
  "note_to_midi note0 =
     (let note = strip note0 in
      if length note < 2 then Inl (ValueError (''Invalid note: '' @ note))
      else
        let letter = [upper (note ! 0)];
            accidental = accidental_of note;
            octave_str = octave_str_of note
        in case py_int octave_str of
             None \<Rightarrow> Inl (ValueError (''Invalid octave in note: '' @ note))
           | Some octave \<Rightarrow>
               if accidental = ''b'' then
                 (case note_base letter of
                    None \<Rightarrow> Inl (ValueError (''Invalid note letter: '' @ note))
                  | Some natural_value \<Rightarrow> Inr (12 * (octave + 1) + (natural_value - 1) mod 12))
               else
                 (case note_base (letter @ accidental) of
                    None \<Rightarrow> Inl (ValueError (''Invalid note: '' @ note))
                  | Some base_value \<Rightarrow> Inr (12 * (octave + 1) + base_value)))"

section \<open>Python floats\<close>

text \<open>
  A \<^verbatim>\<open>float\<close> is an IEEE 754 binary64 value: a rational, an infinity or a NaN. The
  two zeros are one value here; the program never tells them apart (a division by
  either raises, \<^verbatim>\<open>int\<close> of either is 0). Every operation computes the exact
  rational result and rounds it to the nearest double, ties to even.
\<close>

datatype pyfloat = Finite rat | PosInf | NegInf | NaN

text \<open>\<open>ilog2 x\<close> is the integer \<open>E\<close> with \<open>2 powi E \<le> x < 2 powi (E + 1)\<close>, for \<open>0 < x\<close>.\<close>

definition ilog2 :: "rat \<Rightarrow> int" where
  "ilog2 x = (if 1 \<le> x then bitlen \<lfloor>x\<rfloor> - 1 else - bitlen (\<lceil>1 / x\<rceil> - 1))"

definition round_half_even :: "rat \<Rightarrow> int" where
  "round_half_even x =
     (let f = \<lfloor>x\<rfloor>; r = x - of_int f
      in if r < 1 / 2 then f else if 1 / 2 < r then f + 1 else if even f then f else f + 1)"

text \<open>
  Rounding to binary64: 53 significant bits, the least bit no smaller than
  \<open>2 powi (- 1074)\<close> (subnormal numbers), and an infinity from \<open>2 powi 1024\<close> on.
\<close>

definition round_to_double :: "rat \<Rightarrow> pyfloat" where
  "round_to_double x =
     (if x = 0 then Finite 0
      else
        let e = max (ilog2 \<bar>x\<bar> - 52) (- 1074);
            m = round_half_even (\<bar>x\<bar> / 2 powi e);
            y = of_int m * 2 powi e
        in if 2 powi 1024 \<le> y then (if 0 < x then PosInf else NegInf)
           else Finite (if 0 < x then y else - y))"

definition sign_of :: "pyfloat \<Rightarrow> rat" where
  "sign_of a = (case a of Finite x \<Rightarrow> sgn x | PosInf \<Rightarrow> 1 | NegInf \<Rightarrow> - 1 | NaN \<Rightarrow> 0)"

definition inf_of :: "rat \<Rightarrow> pyfloat" where
  "inf_of s = (if 0 < s then PosInf else NegInf)"

text \<open>\<^verbatim>\<open>a * b\<close> on floats.\<close>

definition float_mul :: "pyfloat \<Rightarrow> pyfloat \<Rightarrow> pyfloat" where
  "float_mul a b =
     (if a = NaN \<or> b = NaN then NaN
      else case (a, b) of
        (Finite x, Finite y) \<Rightarrow> round_to_double (x * y)
      | _ \<Rightarrow> (if sign_of a * sign_of b = 0 then NaN else inf_of (sign_of a * sign_of b)))"

text \<open>\<^verbatim>\<open>a / b\<close> on floats: a zero divisor raises before anything else is looked at.\<close>

definition float_truediv :: "pyfloat \<Rightarrow> pyfloat \<Rightarrow> error + pyfloat" where
  "float_truediv a b =
     (if b = Finite 0 then Inl ZeroDivisionError
      else if a = NaN \<or> b = NaN then Inr NaN
      else case (a, b) of
        (Finite x, Finite y) \<Rightarrow> Inr (round_to_double (x / y))
      | (Finite x, _) \<Rightarrow> Inr (Finite 0)
      | (_, Finite y) \<Rightarrow> Inr (inf_of (sign_of a * sgn y))
      | _ \<Rightarrow> Inr NaN)"

text \<open>The conversion of an \<^verbatim>\<open>int\<close> operand of a float operation.\<close>

definition int_to_float :: "int \<Rightarrow> error + pyfloat" where
  "int_to_float i =
     (case round_to_double (of_int i) of Finite r \<Rightarrow> Inr (Finite r) | _ \<Rightarrow> Inl OverflowError)"

text \<open>\<^verbatim>\<open>int(x)\<close> for a float: the fraction is cut off, towards zero.\<close>

definition float_to_int :: "pyfloat \<Rightarrow> error + int" where
  "float_to_int a =
     (case a of
        Finite x \<Rightarrow> Inr (if 0 \<le> x then \<lfloor>x\<rfloor> else \<lceil>x\<rceil>)
      | NaN \<Rightarrow> Inl (ValueError ''cannot convert float NaN to integer'')
      | _ \<Rightarrow> Inl OverflowError)"

section \<open>The MIDI library\<close>

text \<open>
  The messages the program builds with \<^verbatim>\<open>mido\<close>. The library checks the fields when a
  message is built and raises \<^verbatim>\<open>ValueError\<close> for a value out of range: a note and a
  velocity are data bytes, from 0 to 127, and a tempo has 24 bits. A message's \<open>time\<close>
  is the number of ticks since the message before it in its track.
\<close>

datatype msg_type = note_on | note_off

datatype message =
    MetaMessage_set_tempo (tempo_of: int) (time_of: int)
  | Message (type_of: msg_type) (note_of: int) (velocity_of: int) (time_of: int)

definition new_set_tempo :: "int \<Rightarrow> int \<Rightarrow> error + message" where
  "new_set_tempo tmp t =
     (if 0 \<le> tmp \<and> tmp \<le> 0xFFFFFF then Inr (MetaMessage_set_tempo tmp t)
      else Inl (ValueError ''attribute must be in range 0..16777215''))"

definition new_message :: "msg_type \<Rightarrow> int \<Rightarrow> int \<Rightarrow> int \<Rightarrow> error + message" where
  "new_message ty n v t =
     (if 0 \<le> n \<and> n \<le> 127 \<and> 0 \<le> v \<and> v \<le> 127 then Inr (Message ty n v t)
      else Inl (ValueError ''data byte must be in range 0..127''))"

text \<open>
  A \<^verbatim>\<open>MidiTrack\<close> is a mutable list of messages. The tracks live in a heap, a list of
  their contents, and are referred to by their index, so that a track reachable from
  two places is one object. A \<^verbatim>\<open>MidiFile\<close> holds its resolution and references to
  its tracks.
\<close>

type_synonym addr = nat

type_synonym heap = "message list list"

definition track_append :: "addr \<Rightarrow> message \<Rightarrow> heap \<Rightarrow> heap" where
  "track_append a m h = h[a := h ! a @ [m]]"

record midifile =
  ticks_per_beat :: int
  tracks :: "addr list"

section \<open>The sequencer: \<^verbatim>\<open>create_midi\<close>\<close>

text \<open>
  \<^verbatim>\<open>beats_per_chord = chord_duration / (tempo / 1e6)\<close> and
  \<^verbatim>\<open>ticks_per_chord = int(beats_per_chord * ticks_per_beat)\<close>.
\<close>

definition beats_per_chord :: "pyfloat \<Rightarrow> int \<Rightarrow> error + pyfloat" where
  "beats_per_chord chord_duration tmp =
     (case int_to_float tmp of
        Inl e \<Rightarrow> Inl e
      | Inr t \<Rightarrow>
          (case float_truediv t (Finite 1000000) of
             Inl e \<Rightarrow> Inl e
           | Inr seconds_per_beat \<Rightarrow> float_truediv chord_duration seconds_per_beat))"

definition ticks_product :: "pyfloat \<Rightarrow> int \<Rightarrow> int \<Rightarrow> error + pyfloat" where
  "ticks_product chord_duration tmp tpb =
     (case beats_per_chord chord_duration tmp of
        Inl e \<Rightarrow> Inl e
      | Inr b \<Rightarrow> (case int_to_float tpb of Inl e \<Rightarrow> Inl e | Inr f \<Rightarrow> Inr (float_mul b f)))"

definition ticks_per_chord :: "pyfloat \<Rightarrow> int \<Rightarrow> int \<Rightarrow> error + int" where
  "ticks_per_chord chord_duration tmp tpb =
     (case ticks_product chord_duration tmp tpb of Inl e \<Rightarrow> Inl e | Inr p \<Rightarrow> float_to_int p)"

text \<open>
  The two inner loops of \<^verbatim>\<open>create_midi\<close> differ in the message type only: each resolves
  a note and appends a message of velocity 64 and time 0 to the track. An exception
  leaves the heap as it is at that moment.
\<close>

fun note_loop :: "msg_type \<Rightarrow> addr \<Rightarrow> string list \<Rightarrow> heap \<Rightarrow> (error + unit) \<times> heap" where
  "note_loop ty track [] h = (Inr (), h)"
| "note_loop ty track (n # chord) h =
     (case note_to_midi n of
        Inl e \<Rightarrow> (Inl e, h)
      | Inr midi_note \<Rightarrow>
          (case new_message ty midi_note 64 0 of
             Inl e \<Rightarrow> (Inl e, h)
           | Inr m \<Rightarrow> note_loop ty track chord (track_append track m h)))"

text \<open>The outer loop: the notes on, the wait (a \<^verbatim>\<open>note_off\<close> of note 0 and velocity 0), the notes off.\<close>

fun chord_loop :: "addr \<Rightarrow> int \<Rightarrow> string list list \<Rightarrow> heap \<Rightarrow> (error + unit) \<times> heap" where
  "chord_loop track tpc [] h = (Inr (), h)"
| "chord_loop track tpc (chord # chords) h =
     (case note_loop note_on track chord h of
        (Inl e, h1) \<Rightarrow> (Inl e, h1)
      | (Inr u, h1) \<Rightarrow>
          (case new_message note_off 0 0 tpc of
             Inl e \<Rightarrow> (Inl e, h1)
           | Inr m \<Rightarrow>
               (case note_loop note_off track chord (track_append track m h1) of
                  (Inl e, h2) \<Rightarrow> (Inl e, h2)
                | (Inr u, h2) \<Rightarrow> chord_loop track tpc chords h2)))"

text \<open>
  \<^verbatim>\<open>mid.save(filename)\<close> of the library. The file is opened for writing, which empties
  it, and the header is written; then each track is checked and written as one chunk.
  A message with a negative time makes the check raise \<^verbatim>\<open>ValueError\<close>, and the file keeps
  what was written before. A file is represented by the resolution of its header and
  the tracks written (the end-of-track message that the library adds to each chunk is
  not shown). The file system is taken to let the file be opened.
\<close>

record saved =
  resolution :: int
  contents :: "message list list"

type_synonym files = "string \<rightharpoonup> saved"

fun write_tracks :: "message list list \<Rightarrow> message list list \<Rightarrow> (error + unit) \<times> message list list" where
  "write_tracks written [] = (Inr (), written)"
| "write_tracks written (t # ts) =
     (if list_ex (\<lambda>m. time_of m < 0) t
      then (Inl (ValueError ''message time must be non-negative in MIDI file''), written)
      else write_tracks (written @ [t]) ts)"

definition save :: "midifile \<Rightarrow> heap \<Rightarrow> string \<Rightarrow> files \<Rightarrow> (error + unit) \<times> files" where
  "save mid h filename fs =
     (case write_tracks [] (map (\<lambda>a. h ! a) (tracks mid)) of
        (r, written) \<Rightarrow>
          (r, fs(filename \<mapsto> \<lparr>resolution = ticks_per_beat mid, contents = written\<rparr>)))"

text \<open>
  \<^verbatim>\<open>create_midi\<close> of \<^verbatim>\<open>main.py\<close>. The file object and the track are local, so the only
  thing that leaves the function is what \<^verbatim>\<open>mid.save(output_file)\<close> does to the files. An
  exception before that call leaves the files as they are. The line printed at the end
  is left out.
\<close>

definition create_midi_main :: "string list list \<Rightarrow> pyfloat \<Rightarrow> string \<Rightarrow> int \<Rightarrow> files \<Rightarrow> (error + unit) \<times> files" where
  "create_midi_main chords chord_duration output_file tmp fs =
     (let mid = \<lparr>ticks_per_beat = 480, tracks = [0]\<rparr>;
          track = 0;
          h0 = [[]]
      in case new_set_tempo tmp 0 of
           Inl e \<Rightarrow> (Inl e, fs)
         | Inr m \<Rightarrow>
             (case ticks_per_chord chord_duration tmp (ticks_per_beat mid) of
                Inl e \<Rightarrow> (Inl e, fs)
              | Inr tpc \<Rightarrow>
                  (case chord_loop track tpc chords (track_append track m h0) of
                     (Inl e, h) \<Rightarrow> (Inl e, fs)
                   | (Inr u, h) \<Rightarrow> save mid h output_file fs)))"

text \<open>
  \<^verbatim>\<open>create_midi\<close> of \<^verbatim>\<open>chord_generator.py\<close>. The module holds the file object
  \<^verbatim>\<open>WORKING_MIDI\<close>; the function puts its new track into \<^verbatim>\<open>WORKING_MIDI.tracks\<close> before it
  fills it, reads the resolution from \<^verbatim>\<open>WORKING_MIDI\<close>, and saves nothing
  (\<^verbatim>\<open>output_file\<close> is not used). The state is the heap and \<^verbatim>\<open>WORKING_MIDI\<close>, and it is
  returned with the exception when one is raised.
\<close>

record world =
  heap :: heap
  WORKING_MIDI :: midifile

definition create_midi :: "string list list \<Rightarrow> pyfloat \<Rightarrow> string \<Rightarrow> int \<Rightarrow> world \<Rightarrow> (error + unit) \<times> world" where
  "create_midi chords chord_duration output_file tmp w =
     (let track = length (heap w);
          w1 = w\<lparr>heap := heap w @ [[]],
                 WORKING_MIDI := (WORKING_MIDI w)\<lparr>tracks := tracks (WORKING_MIDI w) @ [track]\<rparr>\<rparr>
      in case new_set_tempo tmp 0 of
           Inl e \<Rightarrow> (Inl e, w1)
         | Inr m \<Rightarrow>
             (let w2 = w1\<lparr>heap := track_append track m (heap w1)\<rparr>
              in case ticks_per_chord chord_duration tmp (ticks_per_beat (WORKING_MIDI w2)) of
                   Inl e \<Rightarrow> (Inl e, w2)
                 | Inr tpc \<Rightarrow>
                     (case chord_loop track tpc chords (heap w2) of
                        (r, h) \<Rightarrow> (r, w2\<lparr>heap := h\<rparr>))))"

text \<open>
  The module as loaded: \<^verbatim>\<open>WORKING_MIDI = MidiFile()\<close>, with the library's resolution of
  480 and no track, and \<^verbatim>\<open>WORKING_TRACK = MidiTrack()\<close>, an empty track at address 0
  that nothing refers to afterwards.
\<close>

definition module_loaded :: world where
  "module_loaded = \<lparr>heap = [[]], WORKING_MIDI = \<lparr>ticks_per_beat = 480, tracks = []\<rparr>\<rparr>"

text \<open>What \<^verbatim>\<open>WORKING_MIDI\<close> shows: the contents of its tracks, in order.\<close>

definition working_tracks :: "world \<Rightarrow> message list list" where
  "working_tracks w = map (\<lambda>a. heap w ! a) (tracks (WORKING_MIDI w))"

section \<open>The messages of a call\<close>

text \<open>
  The loops read without the heap: the messages a loop appends to its track, with the
  exception that ends it, if any. The facts below show that the loops on the heap do
  exactly this to the one track they are given.
\<close>

fun note_events :: "msg_type \<Rightarrow> string list \<Rightarrow> (error + unit) \<times> message list" where
  "note_events ty [] = (Inr (), [])"
| "note_events ty (n # chord) =
     (case note_to_midi n of
        Inl e \<Rightarrow> (Inl e, [])
      | Inr midi_note \<Rightarrow>
          (case new_message ty midi_note 64 0 of
             Inl e \<Rightarrow> (Inl e, [])
           | Inr m \<Rightarrow> (case note_events ty chord of (r, ms) \<Rightarrow> (r, m # ms))))"

fun chord_loop_events :: "int \<Rightarrow> string list list \<Rightarrow> (error + unit) \<times> message list" where
  "chord_loop_events tpc [] = (Inr (), [])"
| "chord_loop_events tpc (chord # chords) =
     (case note_events note_on chord of
        (Inl e, ons) \<Rightarrow> (Inl e, ons)
      | (Inr u, ons) \<Rightarrow>
          (case new_message note_off 0 0 tpc of
             Inl e \<Rightarrow> (Inl e, ons)
           | Inr m \<Rightarrow>
               (case note_events note_off chord of
                  (Inl e, offs) \<Rightarrow> (Inl e, ons @ m # offs)
                | (Inr u, offs) \<Rightarrow>
                    (case chord_loop_events tpc chords of (r, ms) \<Rightarrow> (r, ons @ m # offs @ ms)))))"

text \<open>The whole track of one call of \<^verbatim>\<open>create_midi\<close>, for a resolution \<open>tpb\<close>.\<close>

definition track_of :: "string list list \<Rightarrow> pyfloat \<Rightarrow> int \<Rightarrow> int \<Rightarrow> (error + unit) \<times> message list" where
  "track_of chords chord_duration tmp tpb =
     (case new_set_tempo tmp 0 of
        Inl e \<Rightarrow> (Inl e, [])
      | Inr m \<Rightarrow>
          (case ticks_per_chord chord_duration tmp tpb of
             Inl e \<Rightarrow> (Inl e, [m])
           | Inr tpc \<Rightarrow> (case chord_loop_events tpc chords of (r, ms) \<Rightarrow> (r, m # ms))))"

text \<open>
  A state is well formed when every track of \<^verbatim>\<open>WORKING_MIDI\<close> is in the heap; \<open>with_track\<close>
  is the state after a new track with the given contents has been put into
  \<^verbatim>\<open>WORKING_MIDI.tracks\<close>.
\<close>

definition tracks_allocated :: "world \<Rightarrow> bool" where
  "tracks_allocated w \<longleftrightarrow> (\<forall>a \<in> set (tracks (WORKING_MIDI w)). a < length (heap w))"

definition with_track :: "world \<Rightarrow> message list \<Rightarrow> world" where
  "with_track w trk =
     w\<lparr>heap := heap w @ [trk],
       WORKING_MIDI := (WORKING_MIDI w)\<lparr>tracks := tracks (WORKING_MIDI w) @ [length (heap w)]\<rparr>\<rparr>"

section \<open>Vocabulary of the specification\<close>

text \<open>
  These definitions follow the words of the specification, to state its sentences
  against the code. A token \<open>resolves\<close> to a pitch when \<open>note_to_midi\<close> returns it
  and it is a MIDI data byte, so that the library accepts the message.
\<close>

definition resolves :: "string \<Rightarrow> int \<Rightarrow> bool" where
  "resolves n p \<longleftrightarrow> note_to_midi n = Inr p \<and> 0 \<le> p \<and> p \<le> 127"

text \<open>
  The events of one chord: a NoteOn per note, the duration marker spanning the chord's
  pulses, a NoteOff per note.
\<close>

definition chord_events :: "int \<Rightarrow> int list \<Rightarrow> message list" where
  "chord_events tpc ps =
     map (\<lambda>p. Message note_on p 64 0) ps @ [Message note_off 0 0 tpc] @
     map (\<lambda>p. Message note_off p 64 0) ps"



text \<open>
  The quantity of the specification's formula, before any rounding:
  \<open>pulsesPerBeat * chordDurationSeconds * 1000000 / microsecondsPerBeat\<close>.
\<close>

definition exact_pulses :: "rat \<Rightarrow> int \<Rightarrow> int \<Rightarrow> rat" where
  "exact_pulses d tmp tpb = of_int tpb * d * 1000000 / of_int tmp"


text \<open>
  The specification's table of the natural letters, and its semitone offset: the
  natural's entry, one more for a sharp, \<open>(entry - 1) mod 12\<close> for a flat.
\<close>

definition natural_offset :: "char \<rightharpoonup> int" where
  "natural_offset = map_of
     [(CHR ''C'', 0), (CHR ''D'', 2), (CHR ''E'', 4), (CHR ''F'', 5), (CHR ''G'', 7),
      (CHR ''A'', 9), (CHR ''B'', 11)]"

definition semitone_offset :: "char \<Rightarrow> string \<Rightarrow> int option" where
  "semitone_offset L acc =
     (case natural_offset L of
        None \<Rightarrow> None
      | Some v \<Rightarrow>
          if acc = [] then Some v
          else if acc = ''#'' then Some (v + 1)
          else if acc = ''b'' then Some ((v - 1) mod 12)
          else None)"

text \<open>A letter as it may be written in a token, in either case, with the letter it names.\<close>

definition letter_spellings :: "(char \<times> char) list" where
  "letter_spellings = zip ''ABCDEFGabcdefg'' ''ABCDEFGABCDEFG''"

text \<open>
  The five pairs of letters whose sharp and flat name the same key: the sharp of the first
  letter is the flat of the second.
\<close>

definition enharmonic_pairs :: "(char \<times> char) list" where
  "enharmonic_pairs = zip ''CDFGA'' ''DEGAB''"

section \<open>Facts about the string functions\<close>

lemma strip_no_space: "\<forall>c \<in> set s. \<not> isspace c \<Longrightarrow> strip s = s"
proof -
  assume a: "\<forall>c \<in> set s. \<not> isspace c"
  have 1: "dropWhile isspace s = s"
    using a by (simp add: dropWhile_eq_self_iff)
  have "\<forall>c \<in> set (rev s). \<not> isspace c" using a by simp
  then have 2: "dropWhile isspace (rev s) = rev s"
    by (simp only: dropWhile_eq_self_iff) (metis hd_in_set)
  show ?thesis by (simp add: strip_def 1 2)
qed

lemma dropWhile_pad:
  "\<forall>c \<in> set ws. P c \<Longrightarrow> \<not> P x \<Longrightarrow> dropWhile P (ws @ x # xs) = x # xs"
  by (induction ws) auto

lemma strip_pad:
  assumes "\<forall>c \<in> set ws1. isspace c" "\<forall>c \<in> set ws2. isspace c"
    and "core \<noteq> []" "\<not> isspace (hd core)" "\<not> isspace (last core)"
  shows "strip (ws1 @ core @ ws2) = core"
proof -
  obtain x xs where c1: "core = x # xs" using assms(3) by (cases core) auto
  obtain y ys where c2: "rev core = y # ys" using assms(3) by (cases "rev core") auto
  have "hd (rev core) = last core" using assms(3) by (simp add: hd_rev)
  then have y: "\<not> isspace y" using c2 assms(5) by simp
  have "dropWhile isspace (ws1 @ core @ ws2) = core @ ws2"
    using dropWhile_pad[of ws1 isspace x "xs @ ws2"] assms(1,4) c1 by simp
  moreover have "dropWhile isspace (rev ws2 @ y # ys) = y # ys"
    using dropWhile_pad[of "rev ws2" isspace y ys] assms(2) y by simp
  ultimately have "strip (ws1 @ core @ ws2) = rev (y # ys)"
    by (simp add: strip_def c2)
  also have "\<dots> = core" using c2 by (metis rev_rev_ident)
  finally show ?thesis .
qed

lemma digit_val_nth: "n < 10 \<Longrightarrow> digit_val (''0123456789'' ! n) = Some n"
proof -
  assume "n < 10"
  then have "n \<in> {9, 8, 7} \<or> n \<in> {6, 5, 4} \<or> n \<in> {3, 2, 1, 0}" by auto
  then show ?thesis by (auto simp: digit_val_def)
qed

lemma digit_val_Some_iff: "digit_val c = Some v \<Longrightarrow> c \<in> set ''0123456789''"
  by (simp add: digit_val_def split: if_splits)

lemma digit_not_special:
  "digit_val c = Some v \<Longrightarrow> c \<noteq> CHR ''_'' \<and> c \<noteq> CHR ''-'' \<and> c \<noteq> CHR ''+'' \<and> c \<noteq> CHR ''#'' \<and> c \<noteq> CHR ''b'' \<and> \<not> isspace c"
  by (auto simp: digit_val_def isspace_def split: if_splits)


lemma py_digits_plain:
  "\<forall>c \<in> set cs. digit_val c \<noteq> None \<Longrightarrow> py_digits acc cs = Some (foldl dval acc cs)"
proof (induction cs arbitrary: acc)
  case Nil
  then show ?case by simp
next
  case (Cons c cs)
  then obtain v where v: "digit_val c = Some v" by auto
  then have "c \<noteq> CHR ''_''" using digit_not_special by blast
  then show ?case using Cons v by (simp add: dval_def)
qed

lemma py_str_nat_digits: "\<forall>c \<in> set (py_str_nat n). digit_val c \<noteq> None"
proof (induction n rule: py_str_nat.induct)
  case (1 n)
  show ?case
  proof (cases "n < 10")
    case True
    then show ?thesis using digit_val_nth[of n] by (subst py_str_nat.simps) simp
  next
    case False
    have "n mod 10 < 10" by simp
    then have "digit_val (''0123456789'' ! (n mod 10)) \<noteq> None"
      using digit_val_nth[of "n mod 10"] by simp
    then show ?thesis using False 1 by (subst py_str_nat.simps) simp
  qed
qed

lemma py_str_nat_value: "foldl dval 0 (py_str_nat n) = n"
proof (induction n rule: py_str_nat.induct)
  case (1 n)
  show ?case
  proof (cases "n < 10")
    case True
    then show ?thesis using digit_val_nth[of n] by (subst py_str_nat.simps) (simp add: dval_def)
  next
    case False
    have "dval (n div 10) (''0123456789'' ! (n mod 10)) = 10 * (n div 10) + n mod 10"
      using digit_val_nth[of "n mod 10"] by (simp add: dval_def)
    then have "foldl dval 0 (py_str_nat (n div 10) @ [''0123456789'' ! (n mod 10)]) = n"
      using 1 False by simp
    then show ?thesis using False by (subst py_str_nat.simps) simp
  qed
qed

lemma py_str_nat_nonempty: "py_str_nat n \<noteq> []"
  by (subst py_str_nat.simps) simp

lemma py_int_literal_str: "py_int_literal (py_str_nat n) = Some n"
proof -
  obtain c cs where cs: "py_str_nat n = c # cs"
    using py_str_nat_nonempty[of n] by (cases "py_str_nat n") auto
  have d: "\<forall>x \<in> set (c # cs). digit_val x \<noteq> None"
    using py_str_nat_digits[of n] cs by simp
  then obtain v where v: "digit_val c = Some v" by auto
  have "py_digits v cs = Some (foldl dval v cs)" using d py_digits_plain by simp
  moreover have "foldl dval v cs = foldl dval 0 (c # cs)" using v by (simp add: dval_def)
  ultimately show ?thesis using cs v py_str_nat_value[of n] by (simp add: py_int_literal_def)
qed

lemma py_str_no_space: "\<forall>c \<in> set (py_str i). \<not> isspace c"
proof -
  have "\<forall>c \<in> set (py_str_nat n). \<not> isspace c" for n
    using py_str_nat_digits[of n] digit_not_special by fastforce
  moreover have "\<not> isspace CHR ''-''" by (simp add: isspace_def)
  ultimately show ?thesis by (simp add: py_str_def)
qed

lemma py_str_nonempty: "py_str i \<noteq> []"
  by (simp add: py_str_def py_str_nat_nonempty)

lemma py_str_hd: "hd (py_str i) \<noteq> CHR ''#'' \<and> hd (py_str i) \<noteq> CHR ''b''"
proof (cases "i < 0")
  case True
  then show ?thesis by (simp add: py_str_def)
next
  case False
  obtain c cs where cs: "py_str_nat (nat i) = c # cs"
    using py_str_nat_nonempty[of "nat i"] by (cases "py_str_nat (nat i)") auto
  then have "digit_val c \<noteq> None" using py_str_nat_digits[of "nat i"] by simp
  then show ?thesis using False cs digit_not_special by (auto simp: py_str_def)
qed

lemma int_space_isspace: "int_space c \<Longrightarrow> isspace c"
  by (auto simp: int_space_def isspace_def)

lemma int_strip_no_space: "\<forall>c \<in> set s. \<not> int_space c \<Longrightarrow> int_strip s = s"
proof -
  assume a: "\<forall>c \<in> set s. \<not> int_space c"
  have 1: "dropWhile int_space s = s"
    using a by (simp add: dropWhile_eq_self_iff)
  have "\<forall>c \<in> set (rev s). \<not> int_space c" using a by simp
  then have 2: "dropWhile int_space (rev s) = rev s"
    by (simp only: dropWhile_eq_self_iff) (metis hd_in_set)
  show ?thesis by (simp add: int_strip_def 1 2)
qed

lemma int_strip_py_str: "int_strip (py_str i) = py_str i"
  using py_str_no_space[of i] int_space_isspace by (intro int_strip_no_space) blast

lemma py_int_py_str: "py_int (py_str i) = Some i"
proof (cases "i < 0")
  case True
  have "int_strip (py_str i) = py_str i" by (rule int_strip_py_str)
  then show ?thesis using True by (simp add: py_int_def py_str_def py_int_literal_str)
next
  case False
  obtain c cs where cs: "py_str_nat (nat i) = c # cs"
    using py_str_nat_nonempty[of "nat i"] by (cases "py_str_nat (nat i)") auto
  then have "digit_val c \<noteq> None" using py_str_nat_digits[of "nat i"] by simp
  then have c: "c \<noteq> CHR ''-''" "c \<noteq> CHR ''+''" using digit_not_special by auto
  have s: "int_strip (py_str i) = py_str i" by (rule int_strip_py_str)
  have "py_int_literal (c # cs) = Some (nat i)" using py_int_literal_str[of "nat i"] cs by simp
  then show ?thesis using False s cs c by (simp add: py_int_def py_str_def)
qed

section \<open>Facts about the pitch resolver\<close>

lemma note_to_midi_stripped:
  assumes "strip t = l # acc @ py_str i" and "acc = [] \<or> acc = ''#'' \<or> acc = ''b''"
  shows "note_to_midi t =
     (if acc = ''b'' then
        (case note_base [upper l] of
           None \<Rightarrow> Inl (ValueError (''Invalid note letter: '' @ l # acc @ py_str i))
         | Some natural_value \<Rightarrow> Inr (12 * (i + 1) + (natural_value - 1) mod 12))
      else
        (case note_base ([upper l] @ acc) of
           None \<Rightarrow> Inl (ValueError (''Invalid note: '' @ l # acc @ py_str i))
         | Some base_value \<Rightarrow> Inr (12 * (i + 1) + base_value)))"
proof -
  obtain c cs where cs: "py_str i = c # cs"
    using py_str_nonempty[of i] by (cases "py_str i") auto
  have c: "c \<noteq> CHR ''#''" "c \<noteq> CHR ''b''" using py_str_hd[of i] cs by auto
  have p: "py_int (c # cs) = Some i" using py_int_py_str[of i] cs by simp
  from assms(2) show ?thesis
  proof (elim disjE)
    assume "acc = []"
    then show ?thesis using assms(1) cs c p by (simp add: note_to_midi_def accidental_of_def octave_str_of_def Let_def
        cong: option.case_cong)
  next
    assume "acc = ''#''"
    then show ?thesis using assms(1) cs p by (simp add: note_to_midi_def accidental_of_def octave_str_of_def Let_def
        cong: option.case_cong)
  next
    assume "acc = ''b''"
    then show ?thesis using assms(1) cs p by (simp add: note_to_midi_def accidental_of_def octave_str_of_def Let_def
        cong: option.case_cong)
  qed
qed

lemma strip_token:
  assumes "\<forall>c \<in> set ws1. isspace c" "\<forall>c \<in> set ws2. isspace c" "\<not> isspace l"
  shows "strip (ws1 @ (l # acc @ py_str i) @ ws2) = l # acc @ py_str i"
proof -
  have "last (l # acc @ py_str i) = last (py_str i)" using py_str_nonempty[of i] by simp
  moreover have "last (py_str i) \<in> set (py_str i)" using py_str_nonempty[of i] by simp
  ultimately have "\<not> isspace (last (l # acc @ py_str i))" using py_str_no_space[of i] by metis
  then show ?thesis using strip_pad[OF assms(1,2), of "l # acc @ py_str i"] assms(3) by simp
qed

lemma spelled_letter:
  assumes "(l, L) \<in> set letter_spellings"
  shows "upper l = L \<and> \<not> isspace l"
proof -
  have "(l, L) \<in> set (zip ''ABCDEFG'' ''ABCDEFG'') \<or> (l, L) \<in> set (zip ''abcdefg'' ''ABCDEFG'')"
    using assms by (simp add: letter_spellings_def)
  then show ?thesis
  proof
    assume "(l, L) \<in> set (zip ''ABCDEFG'' ''ABCDEFG'')"
    then show ?thesis by simp (elim disjE conjE, simp_all add: upper_def isspace_def)
  next
    assume "(l, L) \<in> set (zip ''abcdefg'' ''ABCDEFG'')"
    then show ?thesis by simp (elim disjE conjE, simp_all add: upper_def isspace_def)
  qed
qed

lemma natural_offset_note_base: "natural_offset L = Some v \<Longrightarrow> note_base [L] = Some v"
  by (simp add: natural_offset_def note_base_def split: if_splits)

lemma natural_offset_spelling: "natural_offset L = Some v \<Longrightarrow> (L, L) \<in> set letter_spellings"
  by (simp add: natural_offset_def letter_spellings_def split: if_splits)

lemma token_resolution:
  assumes "(l, L) \<in> set letter_spellings" and "acc = [] \<or> acc = ''#'' \<or> acc = ''b''"
    and "\<forall>c \<in> set ws1. isspace c" and "\<forall>c \<in> set ws2. isspace c"
  shows "note_to_midi (ws1 @ l # acc @ py_str i @ ws2) =
     (if acc = ''b'' then
        (case note_base [L] of
           None \<Rightarrow> Inl (ValueError (''Invalid note letter: '' @ l # acc @ py_str i))
         | Some natural_value \<Rightarrow> Inr (12 * (i + 1) + (natural_value - 1) mod 12))
      else
        (case note_base ([L] @ acc) of
           None \<Rightarrow> Inl (ValueError (''Invalid note: '' @ l # acc @ py_str i))
         | Some base_value \<Rightarrow> Inr (12 * (i + 1) + base_value)))"
proof -
  have u: "upper l = L" "\<not> isspace l" using spelled_letter[OF assms(1)] by simp_all
  have s: "strip (ws1 @ l # acc @ py_str i @ ws2) = l # acc @ py_str i"
    using strip_token[OF assms(3,4) u(2), of acc i] by simp
  show ?thesis using note_to_midi_stripped[OF s assms(2)] u(1) by simp
qed

lemma flat_token:
  assumes "natural_offset L = Some v"
  shows "note_to_midi (L # ''b'' @ py_str i) = Inr (12 * (i + 1) + (v - 1) mod 12)"
  using token_resolution[OF natural_offset_spelling[OF assms], of "''b''" "[]" "[]" i]
    natural_offset_note_base[OF assms] by simp

lemma sharp_token:
  assumes "(L, L) \<in> set letter_spellings" and "note_base [L, CHR ''#''] = Some v"
  shows "note_to_midi (L # ''#'' @ py_str i) = Inr (12 * (i + 1) + v)"
  using token_resolution[OF assms(1), of "''#''" "[]" "[]" i] assms(2) by simp

lemma py_str_3: "py_str 3 = ''3''"
  by (simp add: py_str_def py_str_nat.simps[of 3])

lemma py_str_4: "py_str 4 = ''4''"
  by (simp add: py_str_def py_str_nat.simps[of 4])



section \<open>Facts about the float operations\<close>

lemma ilog2_bounds:
  assumes "0 < x"
  shows "2 powi (ilog2 x) \<le> x \<and> x < 2 powi (ilog2 x + 1)"
proof (cases "1 \<le> x")
  case True
  define n where "n = \<lfloor>x\<rfloor>"
  have n: "0 < n" using True by (simp add: n_def)
  have b: "0 < bitlen n" using n bitlen_eq_zero_iff[of n] bitlen_nonneg[of n] by linarith
  from bitlen_bounds[OF n] have lo: "2 ^ nat (bitlen n - 1) \<le> n" and hi: "n < 2 ^ nat (bitlen n)"
    by auto
  have E: "ilog2 x = bitlen n - 1" using True by (simp add: ilog2_def n_def)
  have "(2::rat) powi (bitlen n - 1) = of_int (2 ^ nat (bitlen n - 1))"
    using b by (simp add: power_int_def)
  also have "\<dots> \<le> of_int n" using lo by (simp only: of_int_le_iff)
  also have "\<dots> \<le> x" by (simp add: n_def)
  finally have 1: "2 powi (ilog2 x) \<le> x" using E by simp
  have "n + 1 \<le> 2 ^ nat (bitlen n)" using hi by simp
  then have "(of_int (n + 1) :: rat) \<le> of_int (2 ^ nat (bitlen n))" by (simp only: of_int_le_iff)
  moreover have "x < of_int (n + 1)" unfolding n_def by linarith
  moreover have "(2::rat) powi (bitlen n - 1 + 1) = of_int (2 ^ nat (bitlen n))"
    using b by (simp add: power_int_def)
  ultimately have 2: "x < 2 powi (ilog2 x + 1)" using E by simp
  show ?thesis using 1 2 by simp
next
  case False
  define y where "y = 1 / x"
  define n where "n = \<lceil>y\<rceil> - 1"
  have y1: "1 < y" using False assms by (simp add: y_def)
  have n: "0 < n" using y1 by (simp add: n_def less_ceiling_iff)
  have b: "0 < bitlen n" using n bitlen_eq_zero_iff[of n] bitlen_nonneg[of n] by linarith
  from bitlen_bounds[OF n] have lo: "2 ^ nat (bitlen n - 1) \<le> n" and hi: "n < 2 ^ nat (bitlen n)"
    by auto
  have E: "ilog2 x = - bitlen n" using False by (simp add: ilog2_def n_def y_def)
  have ny: "of_int n < y" by (simp add: n_def) linarith
  have yn: "y \<le> of_int (n + 1)" by (simp add: n_def)
  have "n + 1 \<le> 2 ^ nat (bitlen n)" using hi by simp
  then have "(of_int (n + 1) :: rat) \<le> of_int (2 ^ nat (bitlen n))" by (simp only: of_int_le_iff)
  then have "y \<le> 2 ^ nat (bitlen n)" using yn by simp
  then have "1 / 2 ^ nat (bitlen n) \<le> x"
    using assms by (simp add: y_def field_simps)
  moreover have "(2::rat) powi (- bitlen n) = 1 / 2 ^ nat (bitlen n)"
    using b by (simp add: power_int_def field_simps)
  ultimately have 1: "2 powi (ilog2 x) \<le> x" using E by simp
  have "(2::rat) ^ nat (bitlen n - 1) \<le> of_int n"
    using lo by (metis of_int_le_iff of_int_numeral of_int_power)
  then have "2 ^ nat (bitlen n - 1) < y" using ny by linarith
  then have "x < 1 / 2 ^ nat (bitlen n - 1)"
    using assms by (simp add: y_def field_simps)
  moreover have "(2::rat) powi (- bitlen n + 1) = 1 / 2 ^ nat (bitlen n - 1)"
  proof -
    define m where "m = nat (bitlen n - 1)"
    have "- bitlen n + 1 = - int m" using b by (simp add: m_def)
    then have "(2::rat) powi (- bitlen n + 1) = 2 powi (- int m)" by simp
    also have "\<dots> = 1 / 2 ^ m" by (simp add: power_int_minus_divide)
    finally show ?thesis by (simp add: m_def)
  qed
  ultimately have 2: "x < 2 powi (ilog2 x + 1)" using E by simp
  show ?thesis using 1 2 by simp
qed

lemma round_half_even_bounds:
  "\<lfloor>x\<rfloor> \<le> round_half_even x \<and> round_half_even x \<le> \<lfloor>x\<rfloor> + 1"
  by (simp add: round_half_even_def Let_def)

lemma round_half_even_int: "round_half_even (of_int k) = k"
  by (simp add: round_half_even_def Let_def)


lemma pow2_less_imp: "(2::rat) powi a < 2 powi b \<Longrightarrow> a < b"
proof (rule ccontr)
  assume l: "(2::rat) powi a < 2 powi b" and "\<not> a < b"
  then have "b \<le> a" by simp
  then have "(2::rat) powi b \<le> 2 powi a" by (rule power_int_increasing) simp
  then show False using l by simp
qed

lemma round_to_double_normal:
  assumes lo: "2 powi (- 1022) \<le> x" and hi: "x < 2 powi 1023"
  shows "\<exists>y. round_to_double x = Finite y \<and> 2 powi (ilog2 x) \<le> y \<and> y \<le> 2 powi (ilog2 x + 1)"
proof -
  define E where "E = ilog2 x"
  have "(0::rat) < 2 powi (- 1022)" by (rule zero_less_power_int) simp
  then have x: "0 < x" using lo by linarith
  from ilog2_bounds[OF x] have b1: "2 powi E \<le> x" and b2: "x < 2 powi (E + 1)"
    by (simp_all add: E_def)
  have "(2::rat) powi (- 1022) < 2 powi (E + 1)" using lo b2 by linarith
  then have E1: "- 1022 \<le> E" using pow2_less_imp[of "- 1022" "E + 1"] by simp
  have "(2::rat) powi E < 2 powi 1023" using hi b1 by linarith
  then have E2: "E \<le> 1022" using pow2_less_imp[of E 1023] by simp
  define e where "e = E - 52"
  have e: "max (ilog2 \<bar>x\<bar> - 52) (- 1074) = e" using E1 x by (simp add: e_def E_def)
  have pe: "(0::rat) < 2 powi e" by (rule zero_less_power_int) simp
  define q :: rat where "q = x / 2 powi e"
  have Ee: "(2::rat) powi E = 2 ^ 52 * 2 powi e"
    using power_int_add[of "2::rat" 52 e] by (simp add: e_def)
  have Ee1: "(2::rat) powi (E + 1) = 2 ^ 53 * 2 powi e"
    using power_int_add[of "2::rat" 53 e] by (simp add: e_def add.commute)
  have q1: "2 ^ 52 \<le> q" using b1 pe by (simp add: q_def Ee field_simps)
  have q2: "q < 2 ^ 53" using b2 pe by (simp add: q_def Ee1 field_simps)
  define m where "m = round_half_even q"
  have f1: "(2::int) ^ 52 \<le> \<lfloor>q\<rfloor>" using q1 by (simp add: le_floor_iff)
  have f2: "\<lfloor>q\<rfloor> + 1 \<le> (2::int) ^ 53" using q2 by (simp add: floor_less_iff)
  have m: "2 ^ 52 \<le> m" "m \<le> 2 ^ 53"
    using f1 f2 round_half_even_bounds[of q] unfolding m_def by linarith+
  have m1: "(2::rat) ^ 52 \<le> of_int m"
    using m(1) by (metis of_int_le_iff of_int_numeral of_int_power)
  have m2: "of_int m \<le> (2::rat) ^ 53"
    using m(2) by (metis of_int_le_iff of_int_numeral of_int_power)
  define y :: rat where "y = of_int m * 2 powi e"
  have y1: "2 powi E \<le> y" using m1 pe by (simp add: y_def Ee)
  have y2: "y \<le> 2 powi (E + 1)" using m2 pe by (simp add: y_def Ee1)
  have "(2::rat) powi (E + 1) < 2 powi 1024"
    by (rule power_int_strict_increasing) (use E2 in simp_all)
  then have y3: "\<not> 2 powi 1024 \<le> y" using y2 by linarith
  have "round_to_double x = Finite y"
    using x y3 unfolding round_to_double_def e Let_def
    by (simp add: q_def[symmetric] m_def[symmetric] y_def[symmetric])
  then show ?thesis using y1 y2 by (simp add: E_def)
qed

lemma round_to_double_pos:
  assumes "2 powi (- 1022) \<le> x" and "x < 2 powi 1023"
  shows "\<exists>y. round_to_double x = Finite y \<and> x / 2 < y \<and> y \<le> 2 * x"
proof -
  have "(0::rat) < 2 powi (- 1022)" by (rule zero_less_power_int) simp
  then have x: "0 < x" using assms(1) by linarith
  obtain y where y: "round_to_double x = Finite y" "2 powi (ilog2 x) \<le> y"
    "y \<le> 2 powi (ilog2 x + 1)"
    using round_to_double_normal[OF assms] by blast
  have s: "(2::rat) powi (ilog2 x + 1) = 2 * 2 powi (ilog2 x)"
    using power_int_add[of "2::rat" 1 "ilog2 x"] by (simp add: add.commute)
  have "x / 2 < y" using ilog2_bounds[OF x] y(2) s by linarith
  moreover have "y \<le> 2 * x" using ilog2_bounds[OF x] y(3) s by linarith
  ultimately show ?thesis using y(1) by blast
qed

lemma int_to_float_480: "int_to_float 480 = Inr (Finite 480)"
  by (simp add: int_to_float_def round_to_double_def ilog2_def round_half_even_def compute_bitlen Let_def)

lemma seconds_per_beat_pos:
  assumes "1 \<le> tmp" "tmp \<le> 0xFFFFFF"
  shows "\<exists>t s. int_to_float tmp = Inr (Finite t) \<and>
           float_truediv (Finite t) (Finite 1000000) = Inr (Finite s) \<and> 0 < s"
proof -
  have a: "(2::rat) powi (- 1022) \<le> 2 powi (- 21)" by (rule power_int_increasing) simp_all
  have b: "(2::rat) powi 26 \<le> 2 powi 1023" by (rule power_int_increasing) simp_all
  have a': "(2::rat) powi (- 21) = 1 / 2097152" by (simp add: power_int_minus_divide)
  have b': "(2::rat) powi 26 = 67108864" by simp
  have x1: "(1::rat) \<le> of_int tmp" using assms(1) by simp
  have "(of_int tmp :: rat) \<le> of_int 16777215" using assms(2) by (simp only: of_int_le_iff)
  then have x2: "(of_int tmp :: rat) \<le> 16777215" by simp
  have "2 powi (- 1022) \<le> (of_int tmp :: rat)" using a a' x1 by linarith
  moreover have "(of_int tmp :: rat) < 2 powi 1023" using b b' x2 by linarith
  ultimately obtain t where t: "round_to_double (of_int tmp) = Finite t"
    "of_int tmp / 2 < t" "t \<le> 2 * of_int tmp"
    using round_to_double_pos[of "of_int tmp"] by blast
  have t1: "1 / 2 < t" using t(2) x1 by linarith
  have t2: "t \<le> 33554430" using t(3) x2 by linarith
  have c1: "1 / 2097152 \<le> t / 1000000" using t1 by (simp add: field_simps)
  have c2: "t / 1000000 < 67108864" using t2 by (simp add: field_simps)
  have "2 powi (- 1022) \<le> t / 1000000" using a a' c1 by linarith
  moreover have "t / 1000000 < 2 powi 1023" using b b' c2 by linarith
  ultimately obtain s where s: "round_to_double (t / 1000000) = Finite s" "t / 1000000 / 2 < s"
    using round_to_double_pos[of "t / 1000000"] by blast
  have "0 < t / 1000000 / 2" using t1 by simp
  then have "0 < s" using s(2) by linarith
  then show ?thesis using t(1) s(1) by (simp add: int_to_float_def float_truediv_def)
qed

lemma ticks_per_chord_zero:
  assumes "1 \<le> tmp" "tmp \<le> 0xFFFFFF"
  shows "ticks_per_chord (Finite 0) tmp 480 = Inr 0"
proof -
  obtain t s where "int_to_float tmp = Inr (Finite t)"
    "float_truediv (Finite t) (Finite 1000000) = Inr (Finite s)" "0 < s"
    using seconds_per_beat_pos[OF assms] by blast
  then show ?thesis
    by (simp add: ticks_per_chord_def ticks_product_def beats_per_chord_def float_truediv_def
        float_mul_def float_to_int_def int_to_float_480 round_to_double_def)
qed




lemma ticks_per_chord_reference: "ticks_per_chord (Finite 2) 500000 480 = Inr 1920"
  by (simp add: ticks_per_chord_def ticks_product_def beats_per_chord_def float_truediv_def
        float_mul_def float_to_int_def int_to_float_def round_to_double_def ilog2_def
        round_half_even_def compute_bitlen Let_def)

lemma ticks_product_example: "ticks_product (Finite (1 / 512)) 500000 480 = Inr (Finite (15 / 8))"
  by (simp add: ticks_product_def beats_per_chord_def float_truediv_def
        float_mul_def int_to_float_def round_to_double_def ilog2_def
        round_half_even_def compute_bitlen Let_def)

lemma ticks_per_chord_example: "ticks_per_chord (Finite (1 / 512)) 500000 480 = Inr 1"
proof -
  have "\<lfloor>15 / 8 :: rat\<rfloor> = 1" by (rule floor_unique) simp_all
  then show ?thesis by (simp add: ticks_per_chord_def ticks_product_example float_to_int_def)
qed

section \<open>Facts about the loops\<close>

lemma track_append_upd:
  "a < length h \<Longrightarrow> track_append a m (h[a := xs]) = h[a := xs @ [m]]"
  by (simp add: track_append_def)

lemma note_loop_events:
  "a < length h \<Longrightarrow>
   note_loop ty a chord (h[a := xs]) =
     (fst (note_events ty chord), h[a := xs @ snd (note_events ty chord)])"
proof (induction chord arbitrary: xs)
  case Nil
  then show ?case by simp
next
  case (Cons n chord)
  show ?case
  proof (cases "note_to_midi n")
    case (Inl e)
    then show ?thesis by simp
  next
    case (Inr p)
    show ?thesis
    proof (cases "new_message ty p 64 0")
      case (Inl e)
      then show ?thesis using Inr by simp
    next
      case m: (Inr m)
      show ?thesis
        using Inr m Cons.IH[OF Cons.prems, of "xs @ [m]"] Cons.prems
        by (simp add: track_append_upd split: prod.splits)
    qed
  qed
qed

lemma chord_loop_events:
  "a < length h \<Longrightarrow>
   chord_loop a tpc chords (h[a := xs]) =
     (fst (chord_loop_events tpc chords), h[a := xs @ snd (chord_loop_events tpc chords)])"
proof (induction chords arbitrary: xs)
  case Nil
  then show ?case by simp
next
  case (Cons chord chords)
  obtain r1 ons where on: "note_events note_on chord = (r1, ons)" by (cases "note_events note_on chord")
  obtain r2 offs where off: "note_events note_off chord = (r2, offs)"
    by (cases "note_events note_off chord")
  have m: "new_message note_off 0 0 tpc = Inr (Message note_off 0 0 tpc)"
    by (simp add: new_message_def)
  have 1: "note_loop note_on a chord (h[a := xs]) = (r1, h[a := xs @ ons])"
    using note_loop_events[OF Cons.prems, of note_on chord xs] on by simp
  have 2: "note_loop note_off a chord (h[a := xs @ ons @ [Message note_off 0 0 tpc]]) =
             (r2, h[a := xs @ ons @ [Message note_off 0 0 tpc] @ offs])"
    using note_loop_events[OF Cons.prems, of note_off chord "xs @ ons @ [Message note_off 0 0 tpc]"] off
    by simp
  show ?case
  proof (cases r1)
    case (Inl e)
    then show ?thesis using 1 on by simp
  next
    case r1: (Inr u)
    show ?thesis
    proof (cases r2)
      case (Inl e)
      then show ?thesis using 1 2 on off r1 m Cons.prems by (simp add: track_append_upd)
    next
      case r2: (Inr u2)
      show ?thesis
        using 1 2 on off r1 r2 m Cons.prems
          Cons.IH[OF Cons.prems, of "xs @ ons @ [Message note_off 0 0 tpc] @ offs"]
        by (simp add: track_append_upd split: prod.splits)
    qed
  qed
qed

lemma create_midi_track:
  "create_midi chords d f tmp w =
     (fst (track_of chords d tmp (ticks_per_beat (WORKING_MIDI w))),
      with_track w (snd (track_of chords d tmp (ticks_per_beat (WORKING_MIDI w)))))"
proof -
  have u: "heap w @ [xs] = (heap w @ [[]])[length (heap w) := xs]" for xs by simp
  have l: "length (heap w) < length (heap w @ [[]])" by simp
  have c: "chord_loop (length (heap w)) tpc chords (heap w @ [[m]]) =
      (fst (chord_loop_events tpc chords), heap w @ [m # snd (chord_loop_events tpc chords)])" for tpc m
    using chord_loop_events[OF l, of tpc chords "[m]"] by (simp flip: u)
  show ?thesis
    by (simp add: create_midi_def track_of_def with_track_def Let_def track_append_def c
        split: sum.splits prod.splits)
qed

lemma create_midi_main_track:
  "create_midi_main chords d f tmp fs =
     (case track_of chords d tmp 480 of
        (Inl e, trk) \<Rightarrow> (Inl e, fs)
      | (Inr u, trk) \<Rightarrow> save \<lparr>ticks_per_beat = 480, tracks = [0]\<rparr> [trk] f fs)"
proof -
  have l: "0 < length [[] :: message list]" by simp
  have c: "chord_loop 0 tpc chords [[m]] =
      (fst (chord_loop_events tpc chords), [m # snd (chord_loop_events tpc chords)])" for tpc m
    using chord_loop_events[OF l, of tpc chords "[m]"] by simp
  show ?thesis
    by (simp add: create_midi_main_def track_of_def Let_def track_append_def c
        split: sum.splits prod.splits)
qed

lemma working_tracks_with_track:
  "tracks_allocated w \<Longrightarrow> working_tracks (with_track w trk) = working_tracks w @ [trk]"
  by (simp add: tracks_allocated_def working_tracks_def with_track_def nth_append)

lemma tracks_allocated_with_track:
  "tracks_allocated w \<Longrightarrow> tracks_allocated (with_track w trk)"
  by (auto simp: tracks_allocated_def with_track_def)


lemma note_events_ok:
  "list_all2 resolves chord ps \<Longrightarrow>
   note_events ty chord = (Inr (), map (\<lambda>p. Message ty p 64 0) ps)"
  by (induction chord ps rule: list_all2_induct) (simp_all add: resolves_def new_message_def)

lemma note_events_fail:
  "list_all2 resolves good ps \<Longrightarrow> note_to_midi bad = Inl e \<Longrightarrow>
   note_events ty (good @ bad # rest) = (Inl e, map (\<lambda>p. Message ty p 64 0) ps)"
  by (induction good ps rule: list_all2_induct) (simp_all add: resolves_def new_message_def)

lemma chord_loop_events_ok:
  "list_all2 (list_all2 resolves) chords pss \<Longrightarrow>
   chord_loop_events tpc chords = (Inr (), concat (map (chord_events tpc) pss))"
  by (induction chords pss rule: list_all2_induct)
    (simp_all add: note_events_ok new_message_def chord_events_def)

lemma chord_loop_events_fail:
  "list_all2 (list_all2 resolves) pre pss \<Longrightarrow> list_all2 resolves good ps \<Longrightarrow>
   note_to_midi bad = Inl e \<Longrightarrow>
   chord_loop_events tpc (pre @ (good @ bad # rest) # post) =
     (Inl e, concat (map (chord_events tpc) pss) @ map (\<lambda>p. Message note_on p 64 0) ps)"
  by (induction pre pss rule: list_all2_induct)
    (simp_all add: note_events_ok note_events_fail new_message_def chord_events_def)

lemma track_of_ok:
  assumes "list_all2 (list_all2 resolves) chords pss" and "0 \<le> tmp" "tmp \<le> 0xFFFFFF"
    and "ticks_per_chord d tmp tpb = Inr tpc"
  shows "track_of chords d tmp tpb =
           (Inr (), MetaMessage_set_tempo tmp 0 # concat (map (chord_events tpc) pss))"
  using assms by (simp add: track_of_def new_set_tempo_def chord_loop_events_ok)

lemma track_of_fail:
  assumes "list_all2 (list_all2 resolves) pre pss" and "list_all2 resolves good ps"
    and "note_to_midi bad = Inl e" and "0 \<le> tmp" "tmp \<le> 0xFFFFFF"
    and "ticks_per_chord d tmp tpb = Inr tpc"
  shows "track_of (pre @ (good @ bad # rest) # post) d tmp tpb =
           (Inl e, MetaMessage_set_tempo tmp 0 # concat (map (chord_events tpc) pss) @
                     map (\<lambda>p. Message note_on p 64 0) ps)"
  using assms by (simp add: track_of_def new_set_tempo_def chord_loop_events_fail)











lemma resolves_C4: "resolves ''C4'' 60"
  by (simp add: resolves_def note_to_midi_def strip_def isspace_def upper_def accidental_of_def
      octave_str_of_def py_int_def int_strip_def int_space_def py_int_literal_def digit_val_def note_base_def)

lemma float_to_int_truncates:
  assumes "float_to_int a = Inr t"
  shows "\<exists>p. a = Finite p \<and> t = (if 0 \<le> p then \<lfloor>p\<rfloor> else \<lceil>p\<rceil>) \<and>
           \<bar>of_int t\<bar> \<le> \<bar>p\<bar> \<and> \<bar>p\<bar> < \<bar>of_int t\<bar> + 1"
proof -
  obtain p where p: "a = Finite p" using assms by (cases a) (simp_all add: float_to_int_def)
  then have t: "t = (if 0 \<le> p then \<lfloor>p\<rfloor> else \<lceil>p\<rceil>)" using assms by (simp add: float_to_int_def)
  have "\<bar>of_int t\<bar> \<le> \<bar>p\<bar> \<and> \<bar>p\<bar> < \<bar>of_int t\<bar> + 1"
  proof (cases "0 \<le> p")
    case True
    then have "0 \<le> \<lfloor>p\<rfloor>" by simp
    then show ?thesis using True t by simp linarith
  next
    case False
    then have "\<lceil>p\<rceil> \<le> 0" by (simp add: ceiling_le_iff)
    then have "\<bar>of_int \<lceil>p\<rceil> :: rat\<bar> = - of_int \<lceil>p\<rceil>" by simp
    moreover have "\<bar>p\<bar> = - p" using False by simp
    ultimately show ?thesis using False t by simp linarith
  qed
  then show ?thesis using p t by blast
qed

section \<open>Facts about the sequencer\<close>

lemma save_one_track:
  "save \<lparr>ticks_per_beat = r, tracks = [0]\<rparr> [trk] f fs =
     (if list_ex (\<lambda>m. time_of m < 0) trk
      then (Inl (ValueError ''message time must be non-negative in MIDI file''),
            fs(f \<mapsto> \<lparr>resolution = r, contents = []\<rparr>))
      else (Inr (), fs(f \<mapsto> \<lparr>resolution = r, contents = [trk]\<rparr>)))"
  by (simp add: save_def)

lemma negative_time_in_track:
  "list_ex (\<lambda>m. time_of m < 0) (concat (map (chord_events tpc) pss)) \<longleftrightarrow> pss \<noteq> [] \<and> tpc < 0"
  by (induction pss) (auto simp: chord_events_def list_ex_iff)

lemma create_midi_main_fst_snd:
  "create_midi_main chords d f tmp fs =
     (case fst (track_of chords d tmp 480) of
        Inl e \<Rightarrow> (Inl e, fs)
      | Inr u \<Rightarrow>
          save \<lparr>ticks_per_beat = 480, tracks = [0]\<rparr> [snd (track_of chords d tmp 480)] f fs)"
  by (cases "track_of chords d tmp 480") (simp add: create_midi_main_track split: sum.splits)


lemma both_sequencers_ok:
  assumes "list_all2 (list_all2 resolves) chords pss" and "0 \<le> tmp" "tmp \<le> 0xFFFFFF"
    and "ticks_per_chord d tmp 480 = Inr tpc" and "ticks_per_beat (WORKING_MIDI w) = 480"
  shows "create_midi_main chords d f tmp fs =
           (if pss \<noteq> [] \<and> tpc < 0
            then (Inl (ValueError ''message time must be non-negative in MIDI file''),
                  fs(f \<mapsto> \<lparr>resolution = 480, contents = []\<rparr>))
            else (Inr (), fs(f \<mapsto> \<lparr>resolution = 480,
                    contents = [MetaMessage_set_tempo tmp 0 # concat (map (chord_events tpc) pss)]\<rparr>)))"
    and "create_midi chords d f tmp w =
           (Inr (), with_track w (MetaMessage_set_tempo tmp 0 # concat (map (chord_events tpc) pss)))"
  using track_of_ok[OF assms(1-4)] assms(5)
  by (simp_all add: create_midi_main_fst_snd create_midi_track save_one_track
      negative_time_in_track)

lemma resolves_G4: "resolves ''G4'' 67"
  by (simp add: resolves_def note_to_midi_def strip_def isspace_def upper_def accidental_of_def
      octave_str_of_def py_int_def int_strip_def int_space_def py_int_literal_def digit_val_def note_base_def)


lemma note_to_midi_H4: "note_to_midi ''H4'' = Inl (ValueError ''Invalid note: H4'')"
  by (simp add: note_to_midi_def strip_def isspace_def upper_def accidental_of_def
      octave_str_of_def py_int_def int_strip_def int_space_def py_int_literal_def digit_val_def note_base_def)

lemma module_loaded_facts:
  "tracks_allocated module_loaded" "working_tracks module_loaded = []"
  "ticks_per_beat (WORKING_MIDI module_loaded) = 480"
  by (simp_all add: tracks_allocated_def working_tracks_def module_loaded_def)

lemma with_track_resolution:
  "ticks_per_beat (WORKING_MIDI (with_track w trk)) = ticks_per_beat (WORKING_MIDI w)"
  by (simp add: with_track_def)

lemma ticks_zero_tempo: "ticks_per_chord d 0 tpb = Inl ZeroDivisionError"
  by (simp add: ticks_per_chord_def ticks_product_def beats_per_chord_def int_to_float_def
      float_truediv_def round_to_double_def)

lemma track_of_zero_tempo: "fst (track_of chords d 0 tpb) = Inl ZeroDivisionError"
  by (simp add: track_of_def new_set_tempo_def ticks_zero_tempo)

lemma track_of_negative_tempo:
  "tmp < 0 \<Longrightarrow>
   fst (track_of chords d tmp tpb) = Inl (ValueError ''attribute must be in range 0..16777215'')"
  by (simp add: track_of_def new_set_tempo_def)

lemma track_of_C4:
  "track_of [[''C4'']] (Finite 2) 500000 480 =
     (Inr (), [MetaMessage_set_tempo 500000 0, Message note_on 60 64 0,
               Message note_off 0 0 1920, Message note_off 60 64 0])"
proof -
  have r: "list_all2 (list_all2 resolves) [[''C4'']] [[60]]" by (simp add: resolves_C4)
  show ?thesis
    using track_of_ok[OF r _ _ ticks_per_chord_reference] by (simp add: chord_events_def)
qed

lemma first_call:
  "create_midi [[''C4'']] (Finite 2) ''my_midi.mid'' 500000 module_loaded =
     (Inr (), with_track module_loaded
        [MetaMessage_set_tempo 500000 0, Message note_on 60 64 0,
         Message note_off 0 0 1920, Message note_off 60 64 0])"
  by (simp add: create_midi_track module_loaded_facts track_of_C4)

section \<open>Facts about rounding to a double\<close>

lemma round_half_even_nearest:
  "\<bar>x - of_int (round_half_even x)\<bar> \<le> 1 / 2 \<and>
   (\<bar>x - of_int (round_half_even x)\<bar> = 1 / 2 \<longrightarrow> even (round_half_even x))"
proof -
  define f where "f = \<lfloor>x\<rfloor>"
  define r where "r = x - of_int f"
  have r: "0 \<le> r" "r < 1" unfolding r_def f_def by linarith+
  have d: "x - of_int f = r" "x - of_int (f + 1) = r - 1" by (simp_all add: r_def)
  consider "r < 1 / 2" | "1 / 2 < r" | "r = 1 / 2" "even f" | "r = 1 / 2" "odd f" by fastforce
  then show ?thesis
  proof cases
    case 1
    then have rh: "round_half_even x = f" by (simp add: round_half_even_def Let_def f_def r_def)
    show ?thesis unfolding rh d using 1 r by simp
  next
    case 2
    then have rh: "round_half_even x = f + 1" by (simp add: round_half_even_def Let_def f_def r_def)
    show ?thesis unfolding rh d using 2 r by simp
  next
    case 3
    then have rh: "round_half_even x = f" by (simp add: round_half_even_def Let_def f_def r_def)
    show ?thesis unfolding rh d using 3 by simp
  next
    case 4
    then have rh: "round_half_even x = f + 1" by (simp add: round_half_even_def Let_def f_def r_def)
    show ?thesis unfolding rh d using 4 by simp
  qed
qed

lemma round_half_even_nonneg:
  assumes "0 \<le> q"
  shows "0 \<le> round_half_even q \<and> of_int (round_half_even q) \<le> 2 * q"
proof -
  have f: "0 \<le> \<lfloor>q\<rfloor>" using assms by simp
  have b: "\<lfloor>q\<rfloor> \<le> round_half_even q" "round_half_even q \<le> \<lfloor>q\<rfloor> + 1"
    using round_half_even_bounds[of q] by simp_all
  have 1: "0 \<le> round_half_even q" using f b(1) by linarith
  have 2: "of_int (round_half_even q) \<le> 2 * q"
  proof (cases "1 \<le> q")
    case True
    have "(of_int (round_half_even q) :: rat) \<le> of_int (\<lfloor>q\<rfloor> + 1)"
      using b(2) by (simp only: of_int_le_iff)
    also have "\<dots> \<le> q + 1" by simp
    also have "\<dots> \<le> 2 * q" using True by simp
    finally show ?thesis .
  next
    case False
    then have z: "\<lfloor>q\<rfloor> = 0" using assms by (simp add: floor_eq_iff)
    show ?thesis
    proof (cases "q \<le> 1 / 2")
      case True
      then have "round_half_even q = 0" using z by (simp add: round_half_even_def Let_def)
      then show ?thesis using assms by simp
    next
      case h: False
      then have "round_half_even q = 1" using z by (simp add: round_half_even_def Let_def)
      then show ?thesis using h by simp
    qed
  qed
  show ?thesis using 1 2 by simp
qed

lemma round_to_double_finite:
  assumes "\<bar>x\<bar> < 2 powi 1023"
  shows "\<exists>y. round_to_double x = Finite y \<and> \<bar>y\<bar> \<le> 2 * \<bar>x\<bar> \<and> (0 \<le> x \<longrightarrow> 0 \<le> y) \<and> (x \<le> 0 \<longrightarrow> y \<le> 0)"
proof (cases "x = 0")
  case True
  then show ?thesis by (simp add: round_to_double_def)
next
  case False
  define a where "a = \<bar>x\<bar>"
  define e where "e = max (ilog2 a - 52) (- 1074)"
  define q where "q = a / 2 powi e"
  define m where "m = round_half_even q"
  define y :: rat where "y = of_int m * 2 powi e"
  have pe: "(0::rat) < 2 powi e" by (rule zero_less_power_int) simp
  have q0: "0 \<le> q" using pe by (simp add: q_def a_def)
  have m: "0 \<le> m" "of_int m \<le> 2 * q" using round_half_even_nonneg[OF q0] by (simp_all add: m_def)
  have y0: "0 \<le> y" using m(1) pe by (simp add: y_def)
  have "y \<le> 2 * q * 2 powi e" unfolding y_def using m(2) pe by (simp add: mult_right_mono)
  also have "\<dots> = 2 * \<bar>x\<bar>" using pe by (simp add: q_def a_def)
  finally have y1: "y \<le> 2 * \<bar>x\<bar>" .
  have "(2::rat) powi 1024 = 2 * 2 powi 1023"
    using power_int_add[of "2::rat" 1 1023] by simp
  then have y2: "\<not> 2 powi 1024 \<le> y" using y1 assms by linarith
  have "round_to_double x = Finite (if 0 < x then y else - y)"
    unfolding round_to_double_def Let_def a_def[symmetric] e_def[symmetric] q_def[symmetric]
      m_def[symmetric] y_def[symmetric]
    using False y2 by simp
  then show ?thesis using y0 y1 False by auto
qed

lemma round_to_double_minus:
  "round_to_double (- x) =
     (case round_to_double x of Finite y \<Rightarrow> Finite (- y) | PosInf \<Rightarrow> NegInf
      | NegInf \<Rightarrow> PosInf | NaN \<Rightarrow> NaN)"
  by (cases "x = 0"; cases "0 < x") (simp_all add: round_to_double_def Let_def)

lemma round_to_double_int:
  assumes "\<bar>i\<bar> < 2 ^ 53"
  shows "round_to_double (of_int i) = Finite (of_int i)"
proof (cases "i = 0")
  case True
  then show ?thesis by (simp add: round_to_double_def)
next
  case False
  define a :: rat where "a = \<bar>of_int i\<bar>"
  have "1 \<le> \<bar>i\<bar>" using False by simp
  then have "(of_int 1 :: rat) \<le> of_int \<bar>i\<bar>" by (simp only: of_int_le_iff)
  then have a1: "1 \<le> a" by (simp add: a_def)
  have a0: "0 < a" using a1 by simp
  define E where "E = ilog2 a"
  from ilog2_bounds[OF a0] have b1: "2 powi E \<le> a" and b2: "a < 2 powi (E + 1)"
    by (simp_all add: E_def)
  have "(of_int \<bar>i\<bar> :: rat) < of_int (2 ^ 53)" using assms by (simp only: of_int_less_iff)
  then have a53: "a < 2 powi 53" by (simp add: a_def)
  have "(2::rat) powi E < 2 powi 53" using b1 a53 by linarith
  then have E1: "E \<le> 52" using pow2_less_imp[of E 53] by simp
  have "(2::rat) powi 0 < 2 powi (E + 1)" using a1 b2 by simp
  then have E0: "0 \<le> E" using pow2_less_imp[of 0 "E + 1"] by simp
  define n where "n = nat (52 - E)"
  have e: "max (ilog2 a - 52) (- 1074) = - int n" using E0 E1 by (simp add: E_def n_def)
  have pn: "(2::rat) powi (- int n) = 1 / 2 ^ n" by (simp add: power_int_minus_divide)
  have q: "a / 2 powi (- int n) = of_int (\<bar>i\<bar> * 2 ^ n)" by (simp add: pn a_def)
  have m: "round_half_even (a / 2 powi (- int n)) = \<bar>i\<bar> * 2 ^ n"
    unfolding q by (rule round_half_even_int)
  have y: "of_int (\<bar>i\<bar> * 2 ^ n) * (2::rat) powi (- int n) = a" by (simp add: pn a_def)
  have "a < 2 powi 1024"
    using a53 power_int_strict_increasing[of 53 1024 "2::rat"] by simp
  then have o: "\<not> 2 powi 1024 \<le> a" by simp
  have "round_to_double (of_int i) = Finite (if 0 < (of_int i :: rat) then a else - a)"
    using False o unfolding round_to_double_def Let_def a_def[symmetric] e m y by simp
  then show ?thesis by (cases "0 < i") (simp_all add: a_def)
qed

lemma int_to_float_exact: "\<bar>i\<bar> < 2 ^ 53 \<Longrightarrow> int_to_float i = Inr (Finite (of_int i))"
  by (simp add: int_to_float_def round_to_double_int)

lemma round_to_double_negative:
  assumes "2 powi (- 1022) \<le> x" and "x < 2 powi 1023"
  shows "\<exists>y. round_to_double (- x) = Finite (- y) \<and> x / 2 < y \<and> y \<le> 2 * x"
proof -
  obtain y where y: "round_to_double x = Finite y" "x / 2 < y" "y \<le> 2 * x"
    using round_to_double_pos[OF assms] by blast
  then show ?thesis using round_to_double_minus[of x] by simp
qed

lemma round_to_double_error:
  assumes lo: "2 powi (- 1022) \<le> x" and hi: "x < 2 powi 1023"
  shows "\<exists>y. round_to_double x = Finite y \<and> \<bar>y - x\<bar> \<le> x / 2 ^ 53"
proof -
  define E where "E = ilog2 x"
  have "(0::rat) < 2 powi (- 1022)" by (rule zero_less_power_int) simp
  then have x: "0 < x" using lo by linarith
  from ilog2_bounds[OF x] have b1: "2 powi E \<le> x" and b2: "x < 2 powi (E + 1)"
    by (simp_all add: E_def)
  have "(2::rat) powi (- 1022) < 2 powi (E + 1)" using lo b2 by linarith
  then have E1: "- 1022 \<le> E" using pow2_less_imp[of "- 1022" "E + 1"] by simp
  define e where "e = E - 52"
  have e: "max (ilog2 \<bar>x\<bar> - 52) (- 1074) = e" using E1 x by (simp add: e_def E_def)
  have pe: "(0::rat) < 2 powi e" by (rule zero_less_power_int) simp
  define q :: rat where "q = x / 2 powi e"
  have Ee: "(2::rat) powi E = 2 ^ 52 * 2 powi e"
    using power_int_add[of "2::rat" 52 e] by (simp add: e_def)
  define m where "m = round_half_even q"
  define y :: rat where "y = of_int m * 2 powi e"
  obtain y' where y': "round_to_double x = Finite y'"
    using round_to_double_normal[OF assms] by blast
  have "round_to_double x = (if 2 powi 1024 \<le> y then PosInf else Finite y)"
    using x unfolding round_to_double_def e Let_def
    by (simp add: q_def[symmetric] m_def[symmetric] y_def[symmetric])
  then have r: "round_to_double x = Finite y" using y' by (simp split: if_splits)
  have n: "\<bar>q - of_int m\<bar> \<le> 1 / 2" using round_half_even_nearest[of q] by (simp add: m_def)
  have xq: "x = q * 2 powi e" using pe by (simp add: q_def)
  have "y - x = (of_int m - q) * 2 powi e" by (simp add: y_def xq algebra_simps)
  then have "\<bar>y - x\<bar> = \<bar>of_int m - q\<bar> * 2 powi e" using pe by (simp add: abs_mult)
  also have "\<dots> \<le> 1 / 2 * 2 powi e" using n pe by (simp add: abs_minus_commute)
  also have "\<dots> = 2 powi E / 2 ^ 53" by (simp add: Ee)
  also have "\<dots> \<le> x / 2 ^ 53" using b1 by (simp add: divide_right_mono)
  finally show ?thesis using r by blast
qed

lemma rel_error:
  fixes x y :: rat
  assumes "0 < x" and "\<bar>y - x\<bar> \<le> x / 2 ^ 53"
  shows "x * (1 - 1 / 2 ^ 53) \<le> y" "y \<le> x * (1 + 1 / 2 ^ 53)"
proof -
  have e: "x * (1 - 1 / 2 ^ 53) = x - x / 2 ^ 53" "x * (1 + 1 / 2 ^ 53) = x + x / 2 ^ 53"
    by (simp_all add: algebra_simps)
  have "x - y \<le> x / 2 ^ 53" "y - x \<le> x / 2 ^ 53" using assms(2) by linarith+
  then show "x * (1 - 1 / 2 ^ 53) \<le> y" "y \<le> x * (1 + 1 / 2 ^ 53)"
    unfolding e by linarith+
qed


section \<open>Facts about the pulses of a chord\<close>

lemma pow2_facts:
  "(2::rat) powi (- 1022) \<le> 1 / 2097152" "(2::rat) powi 1023 = 2 powi 990 * 8589934592"
  "(0::rat) < 2 powi 990"
proof -
  have "(2::rat) powi (- 1022) \<le> 2 powi (- 21)" by (rule power_int_increasing) simp_all
  moreover have "(2::rat) powi (- 21) = 1 / 2097152" by (simp add: power_int_minus_divide)
  ultimately show "(2::rat) powi (- 1022) \<le> 1 / 2097152" by simp
  have "(2::rat) powi (990 + 33) = 2 powi 990 * 2 powi 33" by (rule power_int_add) simp
  moreover have "(2::rat) powi 33 = 8589934592" by simp
  ultimately show "(2::rat) powi 1023 = 2 powi 990 * 8589934592" by simp
  show "(0::rat) < 2 powi 990" by (rule zero_less_power_int) simp
qed

lemma pow2_small: "(2::rat) powi (- 1022) \<le> 2 powi (- 1000) / 34"
proof -
  have "(2::rat) powi (- 1000) = 2 powi (- 1022 + 22)" by simp
  also have "\<dots> = 2 powi (- 1022) * 2 powi 22" by (rule power_int_add) simp
  finally have e: "(2::rat) powi (- 1000) = 2 powi (- 1022) * 4194304" by simp
  have "(0::rat) < 2 powi (- 1022)" by (rule zero_less_power_int) simp
  then show ?thesis unfolding e by simp
qed

lemma seconds_per_beat_bounds:
  assumes "1 \<le> tmp" "tmp \<le> 0xFFFFFF"
  shows "\<exists>s. round_to_double (of_int tmp / 1000000) = Finite s \<and> 1 / 2000000 < s \<and> s \<le> 34"
proof -
  define B :: rat where "B = 2 powi 990"
  have B: "0 < B" "(2::rat) powi 1023 = B * 8589934592" using pow2_facts by (simp_all add: B_def)
  have x1: "(1::rat) \<le> of_int tmp" using assms(1) by simp
  have "(of_int tmp :: rat) \<le> of_int 16777215" using assms(2) by (simp only: of_int_le_iff)
  then have x2: "(of_int tmp :: rat) \<le> 16777215" by simp
  define x :: rat where "x = of_int tmp / 1000000"
  have x: "1 / 1000000 \<le> x" "x \<le> 16777215 / 1000000"
    using x1 x2 by (simp_all add: x_def field_simps)
  have "2 powi (- 1022) \<le> x" using pow2_facts(1) x(1) by linarith
  moreover have "x < 2 powi 1023" using B x(2) by simp
  ultimately obtain s where s: "round_to_double x = Finite s" "x / 2 < s" "s \<le> 2 * x"
    using round_to_double_pos[of x] by blast
  have "1 / 2000000 < s" using s(2) x(1) by linarith
  moreover have "s \<le> 34" using s(3) x(2) by linarith
  ultimately show ?thesis using s(1) by (auto simp: x_def)
qed

lemma ticks_product_formula:
  assumes "1 \<le> tmp" "tmp \<le> 0xFFFFFF" and "round_to_double (of_int tmp / 1000000) = Finite s"
    and "\<bar>tpb\<bar> < 2 ^ 53"
  shows "ticks_product (Finite d) tmp tpb =
           Inr (float_mul (round_to_double (d / s)) (Finite (of_int tpb)))"
proof -
  obtain s' where s': "round_to_double (of_int tmp / 1000000) = Finite s'" "1 / 2000000 < s'"
    using seconds_per_beat_bounds[OF assms(1,2)] by blast
  then have s: "s \<noteq> 0" using assms(3) by simp
  have "\<bar>tmp\<bar> < 2 ^ 53" using assms(1,2) by simp
  then have t: "int_to_float tmp = Inr (Finite (of_int tmp))" by (rule int_to_float_exact)
  show ?thesis
    using t s assms(3) int_to_float_exact[OF assms(4)]
    by (simp add: ticks_product_def beats_per_chord_def float_truediv_def)
qed

lemma float_to_int_sign:
  "float_to_int (Finite p) = Inr (if 0 \<le> p then \<lfloor>p\<rfloor> else \<lceil>p\<rceil>)"
  by (simp add: float_to_int_def)

lemma float_to_int_minus:
  "float_to_int (Finite (- p)) = map_sum id uminus (float_to_int (Finite p))"
  by (cases "p = 0"; cases "0 < p") (simp_all add: float_to_int_def ceiling_minus floor_minus)

lemma ticks_defined:
  assumes "1 \<le> tmp" "tmp \<le> 0xFFFFFF" and "\<bar>d\<bar> \<le> 2 powi 990"
  shows "\<exists>t. ticks_per_chord (Finite d) tmp 480 = Inr t \<and> (0 \<le> d \<longrightarrow> 0 \<le> t) \<and> (d \<le> 0 \<longrightarrow> t \<le> 0)"
proof -
  define B :: rat where "B = 2 powi 990"
  have B: "0 < B" "(2::rat) powi 1023 = B * 8589934592" "\<bar>d\<bar> \<le> B"
    using pow2_facts assms(3) by (simp_all add: B_def)
  obtain s where s: "round_to_double (of_int tmp / 1000000) = Finite s" "1 / 2000000 < s" "s \<le> 34"
    using seconds_per_beat_bounds[OF assms(1,2)] by blast
  have s0: "0 < s" using s(2) by simp
  have "\<bar>d / s\<bar> = \<bar>d\<bar> / s" using s0 by simp
  also have "\<dots> \<le> \<bar>d\<bar> * 2000000"
  proof -
    have "\<bar>d\<bar> \<le> \<bar>d\<bar> * 2000000 * s"
      using s(2) mult_left_mono[of "1 / 2000000" s "\<bar>d\<bar> * 2000000"] by simp
    then show ?thesis using s0 by (simp add: field_simps)
  qed
  finally have q: "\<bar>d / s\<bar> \<le> B * 2000000" using B(3) by simp
  then have "\<bar>d / s\<bar> < 2 powi 1023" using B(1,2) by simp
  then obtain b where b: "round_to_double (d / s) = Finite b" "\<bar>b\<bar> \<le> 2 * \<bar>d / s\<bar>"
    "0 \<le> d / s \<longrightarrow> 0 \<le> b" "d / s \<le> 0 \<longrightarrow> b \<le> 0"
    using round_to_double_finite[of "d / s"] by blast
  have "\<bar>b * 480\<bar> = \<bar>b\<bar> * 480" by simp
  also have "\<dots> \<le> B * 2000000 * 960" using b(2) q by simp
  finally have "\<bar>b * 480\<bar> < 2 powi 1023" using B(1,2) by simp
  then obtain p where p: "round_to_double (b * 480) = Finite p"
    "0 \<le> b * 480 \<longrightarrow> 0 \<le> p" "b * 480 \<le> 0 \<longrightarrow> p \<le> 0"
    using round_to_double_finite[of "b * 480"] by blast
  have f: "ticks_product (Finite d) tmp 480 = Inr (Finite p)"
    using ticks_product_formula[OF assms(1,2) s(1), of 480 d] b(1) p(1)
    by (simp add: float_mul_def)
  have t: "ticks_per_chord (Finite d) tmp 480 = Inr (if 0 \<le> p then \<lfloor>p\<rfloor> else \<lceil>p\<rceil>)"
    by (simp add: ticks_per_chord_def f float_to_int_sign)
  have pos: "0 \<le> d \<Longrightarrow> 0 \<le> p" using b(3) p(2) s0 by simp
  have neg: "d \<le> 0 \<Longrightarrow> p \<le> 0" using b(4) p(3) s0 by (simp add: divide_nonpos_pos)
  have "0 \<le> d \<longrightarrow> 0 \<le> (if 0 \<le> p then \<lfloor>p\<rfloor> else \<lceil>p\<rceil>)" using pos by simp
  moreover have "d \<le> 0 \<longrightarrow> (if 0 \<le> p then \<lfloor>p\<rfloor> else \<lceil>p\<rceil>) \<le> 0"
    using neg by (auto simp: ceiling_le_iff floor_le_iff) 
  ultimately show ?thesis using t by blast
qed

lemma ticks_negative:
  assumes "1 \<le> tmp" "tmp \<le> 0xFFFFFF" and "d \<le> - 1" and "- (2 powi 990) \<le> d"
  shows "\<exists>t. ticks_per_chord (Finite d) tmp 480 = Inr t \<and> t < 0"
proof -
  define B :: rat where "B = 2 powi 990"
  have B: "0 < B" "(2::rat) powi 1023 = B * 8589934592" "- d \<le> B"
    using pow2_facts assms(4) by (simp_all add: B_def)
  obtain s where s: "round_to_double (of_int tmp / 1000000) = Finite s" "1 / 2000000 < s" "s \<le> 34"
    using seconds_per_beat_bounds[OF assms(1,2)] by blast
  have s0: "0 < s" using s(2) by simp
  define x where "x = (- d) / s"
  have x1: "1 / 34 \<le> x"
  proof -
    have "s \<le> 34 * (- d)" using s(3) assms(3) by linarith
    then show ?thesis using s0 by (simp add: x_def field_simps)
  qed
  have x2: "x \<le> B * 2000000"
  proof -
    have "- d \<le> (- d) * 2000000 * s"
      using s(2) assms(3) mult_left_mono[of "1 / 2000000" s "(- d) * 2000000"] by simp
    then have "x \<le> (- d) * 2000000" using s0 by (simp add: x_def field_simps)
    then show ?thesis using B(3) by simp
  qed
  have "2 powi (- 1022) \<le> x" using pow2_facts(1) x1 by linarith
  moreover have "x < 2 powi 1023" using B(1,2) x2 by simp
  ultimately obtain y where y: "round_to_double (- x) = Finite (- y)" "x / 2 < y" "y \<le> 2 * x"
    using round_to_double_negative[of x] by blast
  have dx: "d / s = - x" by (simp add: x_def)
  have "2 powi (- 1022) \<le> y * 480" using pow2_facts(1) x1 y(2) by linarith
  moreover have "y * 480 < 2 powi 1023" using B(1,2) x2 y(3) by simp
  ultimately obtain z where z: "round_to_double (- (y * 480)) = Finite (- z)" "y * 480 / 2 < z"
    using round_to_double_negative[of "y * 480"] by blast
  have z3: "3 < z" using z(2) y(2) x1 by linarith
  have f: "ticks_product (Finite d) tmp 480 = Inr (Finite (- z))"
    using ticks_product_formula[OF assms(1,2) s(1), of 480 d] y(1) z(1) dx
    by (simp add: float_mul_def)
  have "\<lceil>- z\<rceil> < 0" using z3 by (simp add: ceiling_less_iff)
  then show ?thesis using f z3 by (simp add: ticks_per_chord_def float_to_int_def)
qed


lemma ticks_per_chord_minus:
  assumes "1 \<le> tmp" "tmp \<le> 0xFFFFFF" and "\<bar>d\<bar> \<le> 2 powi 990"
  shows "ticks_per_chord (Finite (- d)) tmp 480 =
           map_sum id uminus (ticks_per_chord (Finite d) tmp 480)"
proof -
  obtain s where s: "round_to_double (of_int tmp / 1000000) = Finite s" "1 / 2000000 < s" "s \<le> 34"
    using seconds_per_beat_bounds[OF assms(1,2)] by blast
  obtain t where t: "ticks_per_chord (Finite d) tmp 480 = Inr t"
    using ticks_defined[OF assms] by blast
  then obtain p where p: "ticks_product (Finite d) tmp 480 = Inr (Finite p)"
    using float_to_int_truncates[of _ t]
    by (auto simp: ticks_per_chord_def split: sum.splits)
  have f: "float_mul (round_to_double (d / s)) (Finite 480) = Finite p"
    using ticks_product_formula[OF assms(1,2) s(1), of 480 d] p by simp
  then obtain b where b: "round_to_double (d / s) = Finite b"
    by (cases "round_to_double (d / s)")
      (simp_all add: float_mul_def sign_of_def inf_of_def split: if_splits)
  have p': "round_to_double (b * 480) = Finite p" using f b by (simp add: float_mul_def)
  have "ticks_product (Finite (- d)) tmp 480 =
      Inr (float_mul (round_to_double (- (d / s))) (Finite 480))"
    using ticks_product_formula[OF assms(1,2) s(1), of 480 "- d"] by simp
  also have "\<dots> = Inr (round_to_double (- (b * 480)))"
    by (simp add: round_to_double_minus[of "d / s"] b float_mul_def)
  also have "\<dots> = Inr (Finite (- p))"
    by (simp add: round_to_double_minus[of "b * 480"] p')
  finally show ?thesis
    by (simp add: ticks_per_chord_def p float_to_int_minus)
qed

lemma ticks_error_bound:
  assumes "1 \<le> tmp" "tmp \<le> 0xFFFFFF" and "2 powi (- 1000) \<le> d" "d \<le> 2 powi 990"
  shows "\<exists>p. ticks_product (Finite d) tmp 480 = Inr (Finite p) \<and>
           ticks_per_chord (Finite d) tmp 480 = Inr \<lfloor>p\<rfloor> \<and>
           exact_pulses d tmp 480 * (1 - 1 / 2 ^ 51) \<le> p \<and>
           p \<le> exact_pulses d tmp 480 * (1 + 1 / 2 ^ 51)"
proof -
  define B :: rat where "B = 2 powi 990"
  define S :: rat where "S = 2 powi (- 1000)"
  define L :: rat where "L = 2 powi (- 1022)"
  have B: "0 < B" "(2::rat) powi 1023 = B * 8589934592" "d \<le> B"
    using pow2_facts assms(4) by (simp_all add: B_def)
  have S: "0 < S" "L \<le> S / 34" "S \<le> d" "0 < L"
    using pow2_small assms(3) by (simp_all add: S_def L_def)
  have d0: "0 < d" using S(1,3) by linarith
  define a :: rat where "a = 1 - 1 / 2 ^ 53"
  define b :: rat where "b = 1 + 1 / 2 ^ 53"
  have ab: "0 < a" "a < 1" "1 < b" "b < 2" "1 / 2 < a" by (simp_all add: a_def b_def)
  define x1 :: rat where "x1 = of_int tmp / 1000000"
  have t1: "(1::rat) \<le> of_int tmp" using assms(1) by simp
  have "(of_int tmp :: rat) \<le> of_int 16777215" using assms(2) by (simp only: of_int_le_iff)
  then have t2: "(of_int tmp :: rat) \<le> 16777215" by simp
  have x1: "1 / 1000000 \<le> x1" "x1 \<le> 16777215 / 1000000" "0 < x1"
    using t1 t2 by (simp_all add: x1_def field_simps)
  have "2 powi (- 1022) \<le> x1" using pow2_facts(1) x1(1) by linarith
  moreover have "x1 < 2 powi 1023" using B x1(2) by simp
  ultimately obtain s where s: "round_to_double x1 = Finite s" "\<bar>s - x1\<bar> \<le> x1 / 2 ^ 53"
    using round_to_double_error[of x1] by blast
  have s1: "x1 * a \<le> s" "s \<le> x1 * b"
    using rel_error[OF x1(3) s(2)] by (simp_all add: a_def b_def)
  have "0 < x1 * a" using x1(3) ab(1) by simp
  then have s0: "0 < s" using s1(1) by linarith
  have "x1 * (1 / 2) \<le> x1 * a" using x1(3) ab(5) by simp
  then have slo: "1 / 2000000 \<le> s" using s1(1) x1(1) by linarith
  have "x1 * b \<le> x1 * 2" using x1(3) ab(4) by simp
  then have shi: "s \<le> 34" using s1(2) x1(2) by linarith
  define x2 :: rat where "x2 = d / s"
  have x20: "0 < x2" using d0 s0 by (simp add: x2_def)
  have "S / 34 \<le> d / s" using S(1,3) s0 shi by (intro frac_le) simp_all
  then have x2lo: "L \<le> x2" using S(2) unfolding x2_def by linarith
  have "d / s \<le> B / (1 / 2000000)" using B(1,3) d0 slo by (intro frac_le) simp_all
  then have x2hi: "x2 \<le> B * 2000000" by (simp add: x2_def)
  then have "x2 < 2 powi 1023" using B(1,2) by simp
  then obtain q where q: "round_to_double x2 = Finite q" "\<bar>q - x2\<bar> \<le> x2 / 2 ^ 53"
    using round_to_double_error[of x2] x2lo by (auto simp: L_def)
  have q1: "x2 * a \<le> q" "q \<le> x2 * b"
    using rel_error[OF x20 q(2)] by (simp_all add: a_def b_def)
  have "x2 * (1 / 2) \<le> x2 * a" using x20 ab(5) by simp
  then have qlo: "x2 / 2 \<le> q" using q1(1) by simp
  have "x2 * b \<le> x2 * 2" using x20 ab(4) by simp
  then have qhi: "q \<le> x2 * 2" using q1(2) by simp
  have q0: "0 < q" using qlo x20 by linarith
  define x3 :: rat where "x3 = q * 480"
  have x30: "0 < x3" using q0 by (simp add: x3_def)
  have "L \<le> x3" using x2lo qlo S(4) by (simp add: x3_def)
  moreover have "x3 < 2 powi 1023" using x2hi qhi B(1,2) by (simp add: x3_def)
  ultimately obtain p where p: "round_to_double x3 = Finite p" "\<bar>p - x3\<bar> \<le> x3 / 2 ^ 53"
    using round_to_double_error[of x3] by (auto simp: L_def)
  have p1: "x3 * a \<le> p" "p \<le> x3 * b"
    using rel_error[OF x30 p(2)] by (simp_all add: a_def b_def)
  have "0 < x3 * a" using x30 ab(1) by simp
  then have p0: "0 < p" using p1(1) by linarith
  have f: "ticks_product (Finite d) tmp 480 = Inr (Finite p)"
    using ticks_product_formula[OF assms(1,2), of s 480 d] s(1) q(1) p(1)
    by (simp add: float_mul_def x1_def x2_def x3_def)
  have t: "ticks_per_chord (Finite d) tmp 480 = Inr \<lfloor>p\<rfloor>"
    using p0 by (simp add: ticks_per_chord_def f float_to_int_sign)
  define X :: rat where "X = exact_pulses d tmp 480"
  have X: "X = 480 * d / x1" by (simp add: X_def exact_pulses_def x1_def)
  have X0: "0 < X" using d0 x1(3) by (simp add: X)
  have u1: "d / (x1 * b) \<le> x2" unfolding x2_def using d0 s0 s1(2) by (intro frac_le) simp_all
  have u2: "x2 \<le> d / (x1 * a)" unfolding x2_def
    using d0 s1(1) \<open>0 < x1 * a\<close> by (intro frac_le) simp_all
  have b0: "0 \<le> b" "0 \<le> a" using ab by simp_all
  have "q * 480 * b \<le> x2 * b * 480 * b"
    using q1(2) b0(1) by (intro mult_right_mono) simp_all
  then have "p \<le> x2 * b * 480 * b" using p1(2) unfolding x3_def by linarith
  also have "\<dots> \<le> d / (x1 * a) * b * 480 * b"
    using u2 b0(1) by (intro mult_right_mono) simp_all
  also have "\<dots> = X * (b * b / a)" by (simp add: X)
  also have "\<dots> \<le> X * (1 + 1 / 2 ^ 51)"
    using X0 by (simp add: a_def b_def)
  finally have hi: "p \<le> X * (1 + 1 / 2 ^ 51)" .
  have "X * (1 - 1 / 2 ^ 51) \<le> X * (a * a / b)"
    using X0 by (simp add: a_def b_def)
  also have "\<dots> = d / (x1 * b) * a * 480 * a" by (simp add: X)
  also have "\<dots> \<le> x2 * a * 480 * a"
    using u1 b0(2) by (intro mult_right_mono) simp_all
  also have "\<dots> \<le> p"
  proof -
    have "x2 * a * 480 * a \<le> q * 480 * a"
      using q1(1) b0(2) by (intro mult_right_mono) simp_all
    then show ?thesis using p1(1) unfolding x3_def by linarith
  qed
  finally have lo: "X * (1 - 1 / 2 ^ 51) \<le> p" .
  show ?thesis using f t lo hi unfolding X_def by blast
qed

lemma two_in_range: "(0::rat) \<le> 2" "(2::rat) \<le> 2 powi 990"
proof -
  have "(2::rat) powi 1 \<le> 2 powi 990" by (rule power_int_increasing) simp_all
  then show "(2::rat) \<le> 2 powi 990" by simp
qed simp

lemma two_above_least: "(2::rat) powi (- 1000) \<le> 2"
proof -
  have "(2::rat) powi (- 1000) \<le> 2 powi 1" by (rule power_int_increasing) simp_all
  then show ?thesis by simp
qed

lemma zero_in_range: "\<bar>0::rat\<bar> \<le> 2 powi 990"
  using pow2_facts(3) by simp

lemma minus_two_in_range: "(- 2 :: rat) \<le> - 1" "- (2 powi 990) \<le> (- 2 :: rat)"
  using two_in_range(2) by simp_all


section \<open>The pulses of some timings\<close>

lemma floor_numeral_div: "\<lfloor>(numeral a :: rat) / numeral b\<rfloor> = numeral a div numeral b"
  using floor_divide_of_int_eq[of "numeral a" "numeral b", where ?'a = rat] by simp

lemma ceiling_numeral_div:
  "\<lceil>(numeral a :: rat) / numeral b\<rceil> = - ((- numeral a) div numeral b)"
  using floor_divide_of_int_eq[of "- numeral a" "numeral b", where ?'a = rat]
  by (simp add: ceiling_def)

lemmas float_eval = ticks_per_chord_def ticks_product_def beats_per_chord_def float_truediv_def
        float_mul_def float_to_int_def int_to_float_def round_to_double_def ilog2_def
        round_half_even_def compute_bitlen Let_def floor_numeral_div ceiling_numeral_div

lemma double_of_three_tenths:
  "round_to_double (3 / 10) = Finite (5404319552844595 / 18014398509481984)"
  by (simp add: float_eval)

lemma ticks_three_tenths:
  "ticks_per_chord (Finite (5404319552844595 / 18014398509481984)) 300000 480 = Inr 480"
  by (simp add: float_eval)

lemma exact_three_tenths:
  "\<lfloor>exact_pulses (5404319552844595 / 18014398509481984) 300000 480\<rfloor> = 479"
  by (simp add: exact_pulses_def floor_numeral_div)

lemma ticks_sixteen_and_a_half:
  "ticks_per_chord (Finite (33 / 2)) 1100000 480 = Inr 7199"
  by (simp add: float_eval)

lemma ticks_tie_up:
  "ticks_per_chord (Finite 4503599627370500) 1000000 480 = Inr 2161727821137840128"
  by (simp add: float_eval)

lemma ticks_tie_down:
  "ticks_per_chord (Finite 4503599627370508) 1000000 480 = Inr 2161727821137843712"
  by (simp add: float_eval)

lemma ticks_minus_two: "ticks_per_chord (Finite (- 2)) 500000 480 = Inr (- 1920)"
  by (simp add: float_eval)

lemma exact_pulses_reference: "exact_pulses 2 500000 480 = 1920"
  by (simp add: exact_pulses_def)


section \<open>Facts about tokens with an accidental\<close>

lemma py_int_nonempty: "py_int s = Some i \<Longrightarrow> s \<noteq> []"
  by (auto simp: py_int_def int_strip_def)

lemma note_to_midi_accidental:
  assumes "strip t = l # a # s" and "a = CHR ''#'' \<or> a = CHR ''b''" and "py_int s = Some i"
  shows "note_to_midi t =
     (if a = CHR ''b'' then
        (case note_base [upper l] of
           None \<Rightarrow> Inl (ValueError (''Invalid note letter: '' @ l # a # s))
         | Some natural_value \<Rightarrow> Inr (12 * (i + 1) + (natural_value - 1) mod 12))
      else
        (case note_base [upper l, a] of
           None \<Rightarrow> Inl (ValueError (''Invalid note: '' @ l # a # s))
         | Some base_value \<Rightarrow> Inr (12 * (i + 1) + base_value)))"
proof -
  obtain c cs where s: "s = c # cs" using py_int_nonempty[OF assms(3)] by (cases s) auto
  from assms(2) show ?thesis
  proof
    assume "a = CHR ''#''"
    then show ?thesis
      using assms(1,3) s
      by (simp add: note_to_midi_def accidental_of_def octave_str_of_def Let_def
          cong: option.case_cong)
  next
    assume "a = CHR ''b''"
    then show ?thesis
      using assms(1,3) s
      by (simp add: note_to_midi_def accidental_of_def octave_str_of_def Let_def
          cong: option.case_cong)
  qed
qed

lemma flat_resolution:
  assumes "strip t = l # CHR ''b'' # s" and "(l, L) \<in> set letter_spellings"
    and "natural_offset L = Some v" and "py_int s = Some i"
  shows "note_to_midi t = Inr (12 * (i + 1) + (v - 1) mod 12)"
  using note_to_midi_accidental[OF assms(1) _ assms(4)] spelled_letter[OF assms(2)]
    natural_offset_note_base[OF assms(3)] by simp

lemma enharmonic_pair_values:
  assumes "(S, F) \<in> set enharmonic_pairs"
  shows "\<exists>a b. note_base [S, CHR ''#''] = Some a \<and> note_base [F] = Some b \<and> (b - 1) mod 12 = a"
proof -
  have "(S, F) \<in> set (zip ''CDFGA'' ''DEGAB'')" using assms by (simp add: enharmonic_pairs_def)
  then show ?thesis by simp (elim disjE conjE, simp_all add: note_base_def)
qed

lemma enharmonic_resolution:
  assumes "strip t = l1 # CHR ''#'' # s1" and "strip u = l2 # CHR ''b'' # s2"
    and "(l1, S) \<in> set letter_spellings" and "(l2, F) \<in> set letter_spellings"
    and "(S, F) \<in> set enharmonic_pairs" and "py_int s1 = Some i" and "py_int s2 = Some i"
  shows "note_to_midi t = note_to_midi u \<and> (\<exists>p. note_to_midi t = Inr p)"
proof -
  obtain a b where v: "note_base [S, CHR ''#''] = Some a" "note_base [F] = Some b"
    "(b - 1) mod 12 = a"
    using enharmonic_pair_values[OF assms(5)] by blast
  have 1: "note_to_midi t = Inr (12 * (i + 1) + a)"
    using note_to_midi_accidental[OF assms(1) _ assms(6)] spelled_letter[OF assms(3)] v(1)
    by simp
  have 2: "note_to_midi u = Inr (12 * (i + 1) + (b - 1) mod 12)"
    using note_to_midi_accidental[OF assms(2) _ assms(7)] spelled_letter[OF assms(4)] v(2)
    by simp
  show ?thesis using 1 2 v(3) by simp
qed


section \<open>Two tokens the sequencer fails on\<close>


lemma note_to_midi_separator:
  "note_to_midi [CHR ''C'', CHR 0x1C, CHR ''4''] =
     Inl (ValueError (''Invalid octave in note: '' @ [CHR ''C'', CHR 0x1C, CHR ''4'']))"
  by (simp add: note_to_midi_def strip_def isspace_def upper_def accidental_of_def
      octave_str_of_def py_int_def int_strip_def int_space_def py_int_literal_def digit_val_def)


section \<open>Facts about a tempo the library rejects\<close>

lemma track_of_zero_tempo_full:
  "track_of chords d 0 tpb = (Inl ZeroDivisionError, [MetaMessage_set_tempo 0 0])"
  by (simp add: track_of_def new_set_tempo_def ticks_zero_tempo)

lemma track_of_negative_tempo_full:
  "tmp < 0 \<Longrightarrow>
   track_of chords d tmp tpb = (Inl (ValueError ''attribute must be in range 0..16777215''), [])"
  by (simp add: track_of_def new_set_tempo_def)

section \<open>The claims\<close>

text \<open>
  C1, as amended: for every token made of a letter A to G in either case, an accidental
  that is absent, a flat, or a sharp, and \<^verbatim>\<open>str(o)\<close> for an integer octave \<open>o\<close>, with any
  whitespace around it, the resolver returns \<open>12 * (o + 1) + semitone_offset\<close>, except
  for a sharp on E or on B, which \<^verbatim>\<open>note_base\<close> does not hold and the resolver rejects
  with \<^verbatim>\<open>ValueError\<close>. In particular \<^verbatim>\<open>"C4"\<close> resolves to 60.
\<close>

theorem resolver_formula:
  assumes "(l, L) \<in> set letter_spellings" and "semitone_offset L acc = Some off"
    and "\<forall>c \<in> set ws1. isspace c" and "\<forall>c \<in> set ws2. isspace c"
  shows "note_to_midi (ws1 @ l # acc @ py_str i @ ws2) =
           (if acc = ''#'' \<and> L \<in> set ''EB''
            then Inl (ValueError (''Invalid note: '' @ l # acc @ py_str i))
            else Inr (12 * (i + 1) + off))"
proof -
  obtain v where v: "natural_offset L = Some v"
    using assms(2) by (auto simp: semitone_offset_def split: option.splits)
  have a: "acc = [] \<or> acc = ''#'' \<or> acc = ''b''"
    using assms(2) v by (simp add: semitone_offset_def split: if_splits)
  note r = token_resolution[OF assms(1) a assms(3,4), of i]
  have nb: "note_base [L] = Some v" using v by (rule natural_offset_note_base)
  from a show ?thesis
  proof (elim disjE)
    assume "acc = []"
    then show ?thesis using r nb assms(2) v by (simp add: semitone_offset_def)
  next
    assume "acc = ''b''"
    then show ?thesis using r nb assms(2) v by (simp add: semitone_offset_def)
  next
    assume s: "acc = ''#''"
    have o: "off = v + 1" using assms(2) v s by (simp add: semitone_offset_def)
    have "L = CHR ''C'' \<or> L = CHR ''D'' \<or> L = CHR ''E'' \<or> L = CHR ''F'' \<or> L = CHR ''G''
        \<or> L = CHR ''A'' \<or> L = CHR ''B''"
      using v by (simp add: natural_offset_def split: if_splits)
    then show ?thesis
      using r s o v by (elim disjE) (simp_all add: natural_offset_def note_base_def)
  qed
qed

theorem resolver_formula_witness:
  "(CHR ''C'', CHR ''C'') \<in> set letter_spellings \<and> semitone_offset CHR ''C'' [] = Some 0 \<and>
   note_to_midi ''C4'' = Inr 60"
proof -
  have a: "(CHR ''C'', CHR ''C'') \<in> set letter_spellings" by (simp add: letter_spellings_def)
  have b: "semitone_offset CHR ''C'' [] = Some 0"
    by (simp add: semitone_offset_def natural_offset_def)
  have "note_to_midi ([] @ CHR ''C'' # [] @ py_str 4 @ []) = Inr (12 * (4 + 1) + 0)"
    using resolver_formula[OF a b, of "[]" "[]" 4] by simp
  then show ?thesis using a b by (simp add: py_str_4)
qed

text \<open>
  C1 as stated fails at \<^verbatim>\<open>"E#4"\<close>: the table with sharps adding 1 gives E sharp the offset
  5, and the resolver raises \<^verbatim>\<open>ValueError\<close> instead of returning \<open>12 * (4 + 1) + 5\<close>.
\<close>

theorem sharp_of_E_rejected:
  "semitone_offset CHR ''E'' ''#'' = Some 5 \<and>
   note_to_midi (CHR ''E'' # ''#'' @ py_str 4) = Inl (ValueError ''Invalid note: E#4'')"
  by (simp add: py_str_4 semitone_offset_def natural_offset_def note_to_midi_def strip_def
      isspace_def upper_def accidental_of_def octave_str_of_def py_int_def int_strip_def int_space_def py_int_literal_def
      digit_val_def note_base_def)




text \<open>
  C3: for every integer octave, the sharp and the flat spelling of each of the five
  black keys resolve to the same pitch (C sharp and D flat, F sharp and G flat, and the
  three other pairs). Every token that strips to a letter A to G in either case, a flat
  sign and an octave that \<^verbatim>\<open>int\<close> accepts resolves with the semitone offset
  \<open>(natural_offset letter - 1) mod 12\<close>; and a sharp token and a flat token of one of the
  five pairs, written in either case, with any whitespace around them and any spelling
  of the same octave, resolve to the same pitch.
\<close>

theorem enharmonic_equivalence:
  "note_to_midi (''C#'' @ py_str i) = note_to_midi (''Db'' @ py_str i) \<and>
   note_to_midi (''F#'' @ py_str i) = note_to_midi (''Gb'' @ py_str i) \<and>
   note_to_midi (''D#'' @ py_str i) = note_to_midi (''Eb'' @ py_str i) \<and>
   note_to_midi (''G#'' @ py_str i) = note_to_midi (''Ab'' @ py_str i) \<and>
   note_to_midi (''A#'' @ py_str i) = note_to_midi (''Bb'' @ py_str i) \<and>
   note_to_midi (''Db'' @ py_str i) = Inr (12 * (i + 1) + 1) \<and>
   note_to_midi (''Gb'' @ py_str i) = Inr (12 * (i + 1) + 6) \<and>
   (\<forall>t l L v s. strip t = l # CHR ''b'' # s \<and> (l, L) \<in> set letter_spellings \<and>
      natural_offset L = Some v \<and> py_int s = Some i \<longrightarrow>
      note_to_midi t = Inr (12 * (i + 1) + (v - 1) mod 12)) \<and>
   (\<forall>t u l1 l2 S F s1 s2. strip t = l1 # CHR ''#'' # s1 \<and> strip u = l2 # CHR ''b'' # s2 \<and>
      (l1, S) \<in> set letter_spellings \<and> (l2, F) \<in> set letter_spellings \<and>
      (S, F) \<in> set enharmonic_pairs \<and> py_int s1 = Some i \<and> py_int s2 = Some i \<longrightarrow>
      note_to_midi t = note_to_midi u \<and> (\<exists>p. note_to_midi t = Inr p))"
proof -
  have f: "note_to_midi (''Db'' @ py_str i) = Inr (12 * (i + 1) + 1)"
    "note_to_midi (''Gb'' @ py_str i) = Inr (12 * (i + 1) + 6)"
    "note_to_midi (''Eb'' @ py_str i) = Inr (12 * (i + 1) + 3)"
    "note_to_midi (''Ab'' @ py_str i) = Inr (12 * (i + 1) + 8)"
    "note_to_midi (''Bb'' @ py_str i) = Inr (12 * (i + 1) + 10)"
    using flat_token[of "CHR ''D''" 2 i] flat_token[of "CHR ''G''" 7 i]
      flat_token[of "CHR ''E''" 4 i] flat_token[of "CHR ''A''" 9 i]
      flat_token[of "CHR ''B''" 11 i]
    by (simp_all add: natural_offset_def)
  have s: "note_to_midi (''C#'' @ py_str i) = Inr (12 * (i + 1) + 1)"
    "note_to_midi (''F#'' @ py_str i) = Inr (12 * (i + 1) + 6)"
    "note_to_midi (''D#'' @ py_str i) = Inr (12 * (i + 1) + 3)"
    "note_to_midi (''G#'' @ py_str i) = Inr (12 * (i + 1) + 8)"
    "note_to_midi (''A#'' @ py_str i) = Inr (12 * (i + 1) + 10)"
    using sharp_token[of "CHR ''C''" 1 i] sharp_token[of "CHR ''F''" 6 i]
      sharp_token[of "CHR ''D''" 3 i] sharp_token[of "CHR ''G''" 8 i]
      sharp_token[of "CHR ''A''" 10 i]
    by (simp_all add: note_base_def letter_spellings_def)
  have g: "\<forall>t l L v s. strip t = l # CHR ''b'' # s \<and> (l, L) \<in> set letter_spellings \<and>
      natural_offset L = Some v \<and> py_int s = Some i \<longrightarrow>
      note_to_midi t = Inr (12 * (i + 1) + (v - 1) mod 12)"
    using flat_resolution by blast
  have h: "\<forall>t u l1 l2 S F s1 s2. strip t = l1 # CHR ''#'' # s1 \<and> strip u = l2 # CHR ''b'' # s2 \<and>
      (l1, S) \<in> set letter_spellings \<and> (l2, F) \<in> set letter_spellings \<and>
      (S, F) \<in> set enharmonic_pairs \<and> py_int s1 = Some i \<and> py_int s2 = Some i \<longrightarrow>
      note_to_midi t = note_to_midi u \<and> (\<exists>p. note_to_midi t = Inr p)"
    using enharmonic_resolution by blast
  show ?thesis using f s g h by (simp only: simp_thms)
qed

theorem enharmonic_equivalence_witness:
  "strip '' db3 '' = CHR ''d'' # CHR ''b'' # ''3'' \<and> strip ''c#+03'' = CHR ''c'' # CHR ''#'' # ''+03'' \<and>
   (CHR ''d'', CHR ''D'') \<in> set letter_spellings \<and> (CHR ''c'', CHR ''C'') \<in> set letter_spellings \<and>
   (CHR ''C'', CHR ''D'') \<in> set enharmonic_pairs \<and>
   natural_offset CHR ''D'' = Some 2 \<and> py_int ''3'' = Some 3 \<and> py_int ''+03'' = Some 3 \<and>
   note_to_midi '' db3 '' = Inr 49 \<and> note_to_midi ''c#+03'' = note_to_midi '' db3 '' \<and>
   note_to_midi ''F#3'' = note_to_midi ''Gb3''"
proof -
  have a: "strip '' db3 '' = CHR ''d'' # CHR ''b'' # ''3''"
    "strip ''c#+03'' = CHR ''c'' # CHR ''#'' # ''+03''"
    by (simp_all add: strip_def isspace_def)
  have b: "(CHR ''d'', CHR ''D'') \<in> set letter_spellings"
    "(CHR ''c'', CHR ''C'') \<in> set letter_spellings"
    "(CHR ''C'', CHR ''D'') \<in> set enharmonic_pairs"
    by (simp_all add: letter_spellings_def enharmonic_pairs_def)
  have n: "natural_offset CHR ''D'' = Some 2" by (simp add: natural_offset_def)
  have p: "py_int ''3'' = Some 3" "py_int ''+03'' = Some 3"
    by (simp_all add: py_int_def int_strip_def int_space_def py_int_literal_def digit_val_def)
  note e = enharmonic_equivalence[of 3]
  have 1: "note_to_midi '' db3 '' = Inr (12 * (3 + 1) + (2 - 1) mod 12)"
    using e a(1) b(1) n p(1) by blast
  have 2: "note_to_midi ''c#+03'' = note_to_midi '' db3 ''"
    using e a b p by blast
  have 3: "note_to_midi ''F#3'' = note_to_midi ''Gb3''"
    using e by (simp add: py_str_3)
  show ?thesis using a b n p 1 2 3 by simp
qed

text \<open>
  C4, as amended: the pulses of a chord are \<^verbatim>\<open>int\<close> of the double-precision value of
  \<^verbatim>\<open>(chord_duration / (tempo / 1e6)) * ticks_per_beat\<close>, that is, this value with its
  fraction cut off towards zero, the floor when it is not negative: a value of 15/8
  gives 1 pulse, not 2. Each of the three float operations rounds to the nearest double,
  ties to even, so the value truncated is not the exact quotient
  \<open>exact_pulses = pulsesPerBeat * chordDurationSeconds * 1000000 / microsecondsPerBeat\<close>:
  for a tempo from 1 to 16777215, 480 pulses per beat and a duration \<open>x\<close> with
  \<open>2 powi (- 1000) \<le> x \<le> 2 powi 990\<close>, it lies within the relative distance
  \<open>1 / 2 ^ 51\<close> of the exact quotient, and the duration \<open>- x\<close> gives the opposite number
  of pulses. A duration of 0 gives 0 pulses. With 480 pulses per beat, 500000
  microseconds per beat and 2.0 seconds each chord occupies exactly 1920 pulses, which
  is the exact quotient.
\<close>

theorem ticks_truncated:
  "(ticks_per_chord d tmp tpb = Inr t \<longrightarrow>
      (\<exists>p. ticks_product d tmp tpb = Inr (Finite p) \<and>
           t = (if 0 \<le> p then \<lfloor>p\<rfloor> else \<lceil>p\<rceil>) \<and>
           \<bar>of_int t\<bar> \<le> \<bar>p\<bar> \<and> \<bar>p\<bar> < \<bar>of_int t\<bar> + 1)) \<and>
   (1 \<le> tmp \<and> tmp \<le> 0xFFFFFF \<and> 2 powi (- 1000) \<le> x \<and> x \<le> 2 powi 990 \<longrightarrow>
      (\<exists>p. ticks_product (Finite x) tmp 480 = Inr (Finite p) \<and>
           ticks_per_chord (Finite x) tmp 480 = Inr \<lfloor>p\<rfloor> \<and>
           ticks_per_chord (Finite (- x)) tmp 480 = Inr (- \<lfloor>p\<rfloor>) \<and>
           exact_pulses x tmp 480 * (1 - 1 / 2 ^ 51) \<le> p \<and>
           p \<le> exact_pulses x tmp 480 * (1 + 1 / 2 ^ 51))) \<and>
   (1 \<le> tmp \<and> tmp \<le> 0xFFFFFF \<longrightarrow> ticks_per_chord (Finite 0) tmp 480 = Inr 0) \<and>
   ticks_per_chord (Finite 2) 500000 480 = Inr 1920 \<and>
   exact_pulses 2 500000 480 = 1920 \<and>
   ticks_product (Finite (1 / 512)) 500000 480 = Inr (Finite (15 / 8)) \<and>
   ticks_per_chord (Finite (1 / 512)) 500000 480 = Inr 1 \<and>
   ticks_per_chord (Finite 4503599627370500) 1000000 480 = Inr 2161727821137840128 \<and>
   ticks_per_chord (Finite 4503599627370508) 1000000 480 = Inr 2161727821137843712 \<and>
   (list_all2 (list_all2 resolves) chords pss \<longrightarrow>
      create_midi_main chords (Finite 2) f 500000 fs =
        (Inr (), fs(f \<mapsto> \<lparr>resolution = 480,
           contents = [MetaMessage_set_tempo 500000 0 # concat (map (chord_events 1920) pss)]\<rparr>)))"
proof -
  have 1: "ticks_per_chord d tmp tpb = Inr t \<longrightarrow>
      (\<exists>p. ticks_product d tmp tpb = Inr (Finite p) \<and>
           t = (if 0 \<le> p then \<lfloor>p\<rfloor> else \<lceil>p\<rceil>) \<and>
           \<bar>of_int t\<bar> \<le> \<bar>p\<bar> \<and> \<bar>p\<bar> < \<bar>of_int t\<bar> + 1)"
  proof
    assume a: "ticks_per_chord d tmp tpb = Inr t"
    then obtain q where q: "ticks_product d tmp tpb = Inr q" "float_to_int q = Inr t"
      by (auto simp: ticks_per_chord_def split: sum.splits)
    show "\<exists>p. ticks_product d tmp tpb = Inr (Finite p) \<and>
           t = (if 0 \<le> p then \<lfloor>p\<rfloor> else \<lceil>p\<rceil>) \<and>
           \<bar>of_int t\<bar> \<le> \<bar>p\<bar> \<and> \<bar>p\<bar> < \<bar>of_int t\<bar> + 1"
      using float_to_int_truncates[OF q(2)] q(1) by auto
  qed
  have 2: "\<exists>p. ticks_product (Finite x) tmp 480 = Inr (Finite p) \<and>
           ticks_per_chord (Finite x) tmp 480 = Inr \<lfloor>p\<rfloor> \<and>
           ticks_per_chord (Finite (- x)) tmp 480 = Inr (- \<lfloor>p\<rfloor>) \<and>
           exact_pulses x tmp 480 * (1 - 1 / 2 ^ 51) \<le> p \<and>
           p \<le> exact_pulses x tmp 480 * (1 + 1 / 2 ^ 51)"
    if a: "1 \<le> tmp" "tmp \<le> 0xFFFFFF" "2 powi (- 1000) \<le> x" "x \<le> 2 powi 990"
  proof -
    obtain p where p: "ticks_product (Finite x) tmp 480 = Inr (Finite p)"
      "ticks_per_chord (Finite x) tmp 480 = Inr \<lfloor>p\<rfloor>"
      "exact_pulses x tmp 480 * (1 - 1 / 2 ^ 51) \<le> p"
      "p \<le> exact_pulses x tmp 480 * (1 + 1 / 2 ^ 51)"
      using ticks_error_bound[OF a] by blast
    have "(0::rat) < 2 powi (- 1000)" by (rule zero_less_power_int) simp
    then have "\<bar>x\<bar> \<le> 2 powi 990" using a(3,4) by simp
    then have "ticks_per_chord (Finite (- x)) tmp 480 = Inr (- \<lfloor>p\<rfloor>)"
      using ticks_per_chord_minus[OF a(1,2), of x] p(2) by simp
    then show ?thesis using p by blast
  qed
  have 2: "1 \<le> tmp \<and> tmp \<le> 0xFFFFFF \<and> 2 powi (- 1000) \<le> x \<and> x \<le> 2 powi 990 \<longrightarrow>
      (\<exists>p. ticks_product (Finite x) tmp 480 = Inr (Finite p) \<and>
           ticks_per_chord (Finite x) tmp 480 = Inr \<lfloor>p\<rfloor> \<and>
           ticks_per_chord (Finite (- x)) tmp 480 = Inr (- \<lfloor>p\<rfloor>) \<and>
           exact_pulses x tmp 480 * (1 - 1 / 2 ^ 51) \<le> p \<and>
           p \<le> exact_pulses x tmp 480 * (1 + 1 / 2 ^ 51))"
    using 2 by blast
  have 3: "1 \<le> tmp \<and> tmp \<le> 0xFFFFFF \<longrightarrow> ticks_per_chord (Finite 0) tmp 480 = Inr 0"
    using ticks_per_chord_zero by blast
  have 4: "list_all2 (list_all2 resolves) chords pss \<longrightarrow>
      create_midi_main chords (Finite 2) f 500000 fs =
        (Inr (), fs(f \<mapsto> \<lparr>resolution = 480,
           contents = [MetaMessage_set_tempo 500000 0 # concat (map (chord_events 1920) pss)]\<rparr>))"
  proof
    assume r: "list_all2 (list_all2 resolves) chords pss"
    show "create_midi_main chords (Finite 2) f 500000 fs =
        (Inr (), fs(f \<mapsto> \<lparr>resolution = 480,
           contents = [MetaMessage_set_tempo 500000 0 # concat (map (chord_events 1920) pss)]\<rparr>))"
      using both_sequencers_ok(1)[OF r _ _ ticks_per_chord_reference module_loaded_facts(3),
          of f fs]
      by simp
  qed
  show ?thesis
    using 1 2 3 4 ticks_per_chord_reference exact_pulses_reference ticks_product_example
      ticks_per_chord_example ticks_tie_up ticks_tie_down
    by (simp only: simp_thms)
qed

theorem ticks_truncated_witness:
  "ticks_per_chord (Finite (1 / 512)) 500000 480 = Inr 1 \<and>
   ticks_product (Finite (1 / 512)) 500000 480 = Inr (Finite (15 / 8)) \<and>
   (1::int) = \<lfloor>15 / 8 :: rat\<rfloor> \<and>
   (1::int) \<le> 500000 \<and> (500000::int) \<le> 0xFFFFFF \<and>
   (2::rat) powi (- 1000) \<le> 2 \<and> (2::rat) \<le> 2 powi 990 \<and>
   ticks_product (Finite 2) 500000 480 = Inr (Finite 1920) \<and>
   ticks_per_chord (Finite (- 2)) 500000 480 = Inr (- 1920) \<and>
   exact_pulses 2 500000 480 * (1 - 1 / 2 ^ 51) \<le> 1920 \<and>
   1920 \<le> exact_pulses 2 500000 480 * (1 + 1 / 2 ^ 51) \<and>
   ticks_per_chord (Finite 0) 500000 480 = Inr 0 \<and>
   list_all2 (list_all2 resolves) [[''C4'']] [[60]] \<and>
   create_midi_main [[''C4'']] (Finite 2) ''progression.mid'' 500000 Map.empty =
     (Inr (), [''progression.mid'' \<mapsto> \<lparr>resolution = 480,
          contents = [[MetaMessage_set_tempo 500000 0, Message note_on 60 64 0,
                       Message note_off 0 0 1920, Message note_off 60 64 0]]\<rparr>])"
proof -
  note t = ticks_truncated[of "Finite (1 / 512)" 500000 480 1 2 "[[''C4'']]" "[[60]]"
      "''progression.mid''" Map.empty]
  have a: "ticks_per_chord (Finite (1 / 512)) 500000 480 = Inr 1"
    and b: "ticks_product (Finite (1 / 512)) 500000 480 = Inr (Finite (15 / 8))"
    using t by simp_all
  obtain p where p: "ticks_product (Finite (1 / 512)) 500000 480 = Inr (Finite p)"
    "(1::int) = (if 0 \<le> p then \<lfloor>p\<rfloor> else \<lceil>p\<rceil>)"
    using t a by blast
  have pe: "p = 15 / 8" using p(1) b by simp
  have "0 \<le> p" unfolding pe by simp
  then have "(1::int) = \<lfloor>p\<rfloor>" using p(2) by simp
  then have c: "(1::int) = \<lfloor>15 / 8 :: rat\<rfloor>" unfolding pe .
  have g: "(2::rat) powi (- 1000) \<le> 2" "(2::rat) \<le> 2 powi 990"
    using two_above_least two_in_range(2) by simp_all
  have h: "(1::int) \<le> 500000 \<and> (500000::int) \<le> 0xFFFFFF \<and> (2::rat) powi (- 1000) \<le> 2 \<and>
      (2::rat) \<le> 2 powi 990"
    using g by simp
  have "\<exists>q. ticks_product (Finite 2) 500000 480 = Inr (Finite q) \<and>
           ticks_per_chord (Finite 2) 500000 480 = Inr \<lfloor>q\<rfloor> \<and>
           ticks_per_chord (Finite (- 2)) 500000 480 = Inr (- \<lfloor>q\<rfloor>) \<and>
           exact_pulses 2 500000 480 * (1 - 1 / 2 ^ 51) \<le> q \<and>
           q \<le> exact_pulses 2 500000 480 * (1 + 1 / 2 ^ 51)"
    using t h by blast
  then obtain q where q: "ticks_product (Finite 2) 500000 480 = Inr (Finite q)"
    "ticks_per_chord (Finite 2) 500000 480 = Inr \<lfloor>q\<rfloor>"
    "ticks_per_chord (Finite (- 2)) 500000 480 = Inr (- \<lfloor>q\<rfloor>)"
    "exact_pulses 2 500000 480 * (1 - 1 / 2 ^ 51) \<le> q"
    "q \<le> exact_pulses 2 500000 480 * (1 + 1 / 2 ^ 51)"
    by blast
  have qv: "ticks_product (Finite 2) 500000 480 = Inr (Finite 1920)"
    by (simp add: float_eval)
  have qe: "q = 1920" using q(1) qv by simp
  have z: "ticks_per_chord (Finite 0) 500000 480 = Inr 0" using t by simp
  have r: "list_all2 (list_all2 resolves) [[''C4'']] [[60]]" by (simp add: resolves_C4)
  have m: "create_midi_main [[''C4'']] (Finite 2) ''progression.mid'' 500000 Map.empty =
     (Inr (), [''progression.mid'' \<mapsto> \<lparr>resolution = 480,
          contents = [MetaMessage_set_tempo 500000 0 # concat (map (chord_events 1920) [[60]])]\<rparr>])"
    using t r by blast
  have n: "ticks_per_chord (Finite (- 2)) 500000 480 = Inr (- 1920)"
    using q(3) unfolding qe by simp
  have e1: "exact_pulses 2 500000 480 * (1 - 1 / 2 ^ 51) \<le> 1920"
    using q(4) unfolding qe .
  have e2: "1920 \<le> exact_pulses 2 500000 480 * (1 + 1 / 2 ^ 51)"
    using q(5) unfolding qe .
  show ?thesis
    using a b c g qv n e1 e2 z r m by (simp add: chord_events_def)
qed

text \<open>
  C4 as stated fails where the rounding of the float operations crosses an integer. The
  double nearest to 0.3, at 300000 microseconds per beat, gives 480 pulses, and the
  floor of the exact quotient is 479; 16.5 seconds at 1100000 microseconds per beat give
  7199 pulses, and the exact quotient is 7200, with no remainder to cut off.
\<close>

theorem pulses_differ_from_exact_floor:
  "round_to_double (3 / 10) = Finite (5404319552844595 / 18014398509481984) \<and>
   ticks_per_chord (Finite (5404319552844595 / 18014398509481984)) 300000 480 = Inr 480 \<and>
   \<lfloor>exact_pulses (5404319552844595 / 18014398509481984) 300000 480\<rfloor> = 479 \<and>
   ticks_per_chord (Finite (33 / 2)) 1100000 480 = Inr 7199 \<and>
   exact_pulses (33 / 2) 1100000 480 = 7200"
proof -
  have "exact_pulses (33 / 2) 1100000 480 = 7200" by (simp add: exact_pulses_def)
  then show ?thesis
    using double_of_three_tenths ticks_three_tenths exact_three_tenths ticks_sixteen_and_a_half
    by (simp only: simp_thms)
qed

text \<open>
  C5, as amended: when the first token that does not resolve comes after tokens that
  resolve to MIDI pitches, both versions of the sequencer raise the resolver's error at
  that token and return nothing. \<^verbatim>\<open>create_midi\<close> of \<^verbatim>\<open>main.py\<close> has saved nothing by
  then: the files are as they were. \<^verbatim>\<open>create_midi\<close> of \<^verbatim>\<open>chord_generator.py\<close> has put its
  track into \<^verbatim>\<open>WORKING_MIDI\<close> before filling it, and the track stays there with the tempo
  message and the events emitted before the failing token; the tracks of earlier calls
  are as they were.
\<close>

theorem fail_fast:
  assumes "list_all2 (list_all2 resolves) pre pss" and "list_all2 resolves good ps"
    and "note_to_midi bad = Inl e" and "0 \<le> tmp" "tmp \<le> 0xFFFFFF"
    and "ticks_per_chord d tmp 480 = Inr tpc"
    and "ticks_per_beat (WORKING_MIDI w) = 480" and "tracks_allocated w"
  shows "create_midi_main (pre @ (good @ bad # rest) # post) d f tmp fs = (Inl e, fs) \<and>
         fst (create_midi (pre @ (good @ bad # rest) # post) d f tmp w) = Inl e \<and>
         working_tracks (snd (create_midi (pre @ (good @ bad # rest) # post) d f tmp w)) =
           working_tracks w @
           [MetaMessage_set_tempo tmp 0 # concat (map (chord_events tpc) pss) @
              map (\<lambda>p. Message note_on p 64 0) ps]"
  using track_of_fail[OF assms(1-6), of rest post] assms(7)
  by (simp add: create_midi_main_fst_snd create_midi_track working_tracks_with_track[OF assms(8)])

theorem fail_fast_witness:
  "list_all2 (list_all2 resolves) [[''C4'']] [[60]] \<and> list_all2 resolves [''G4''] [67] \<and>
   note_to_midi ''H4'' = Inl (ValueError ''Invalid note: H4'') \<and>
   ticks_per_chord (Finite 2) 500000 480 = Inr 1920 \<and>
   ticks_per_beat (WORKING_MIDI module_loaded) = 480 \<and> tracks_allocated module_loaded \<and>
   create_midi_main [[''C4''], [''G4'', ''H4'', ''C4''], [''C4'']] (Finite 2) ''progression.mid'' 500000
       Map.empty =
     (Inl (ValueError ''Invalid note: H4''), Map.empty) \<and>
   fst (create_midi [[''C4''], [''G4'', ''H4'', ''C4''], [''C4'']] (Finite 2) ''my_midi.mid'' 500000
          module_loaded) = Inl (ValueError ''Invalid note: H4'') \<and>
   working_tracks (snd (create_midi [[''C4''], [''G4'', ''H4'', ''C4''], [''C4'']] (Finite 2)
          ''my_midi.mid'' 500000 module_loaded)) =
     [[MetaMessage_set_tempo 500000 0, Message note_on 60 64 0, Message note_off 0 0 1920,
       Message note_off 60 64 0, Message note_on 67 64 0]] \<and>
   create_midi_main [[[CHR ''C'', CHR 0x1C, CHR ''4''], ''H4'']] (Finite 2) ''progression.mid''
       500000 Map.empty =
     (Inl (ValueError (''Invalid octave in note: '' @ [CHR ''C'', CHR 0x1C, CHR ''4''])),
      Map.empty) \<and>
   working_tracks (snd (create_midi [[[CHR ''C'', CHR 0x1C, CHR ''4''], ''H4'']] (Finite 2)
          ''my_midi.mid'' 500000 module_loaded)) =
     [[MetaMessage_set_tempo 500000 0]]"
proof -
  have r: "list_all2 (list_all2 resolves) [[''C4'']] [[60]]" "list_all2 resolves [''G4''] [67]"
    by (simp_all add: resolves_C4 resolves_G4)
  have e: "list_all2 (list_all2 resolves) [] []" "list_all2 resolves [] []" by simp_all
  note f3 = fail_fast[OF e note_to_midi_separator _ _ ticks_per_chord_reference
      module_loaded_facts(3,1), of "[''H4'']" "[]" "''progression.mid''" Map.empty]
  note f4 = fail_fast[OF e note_to_midi_separator _ _ ticks_per_chord_reference
      module_loaded_facts(3,1), of "[''H4'']" "[]" "''my_midi.mid''" Map.empty]
  note f1 = fail_fast[OF r note_to_midi_H4 _ _ ticks_per_chord_reference module_loaded_facts(3,1),
      of "[''C4'']" "[[''C4'']]" "''progression.mid''" Map.empty]
  note f2 = fail_fast[OF r note_to_midi_H4 _ _ ticks_per_chord_reference module_loaded_facts(3,1),
      of "[''C4'']" "[[''C4'']]" "''my_midi.mid''" Map.empty]
  show ?thesis
    using f1 f2 f3 f4 r note_to_midi_H4 ticks_per_chord_reference module_loaded_facts
    by (simp add: chord_events_def)
qed

text \<open>
  C5 as stated fails for \<^verbatim>\<open>chord_generator.py\<close>: after the call on
  \<^verbatim>\<open>[["C4"], ["H4"]]\<close> has raised, \<^verbatim>\<open>WORKING_MIDI\<close>, empty before, holds a track with the
  events of the first chord.
\<close>

theorem partial_track_retained:
  "fst (create_midi [[''C4''], [''H4'']] (Finite 2) ''my_midi.mid'' 500000 module_loaded) =
     Inl (ValueError ''Invalid note: H4'') \<and>
   working_tracks module_loaded = [] \<and>
   working_tracks (snd (create_midi [[''C4''], [''H4'']] (Finite 2) ''my_midi.mid'' 500000
                          module_loaded)) =
     [[MetaMessage_set_tempo 500000 0, Message note_on 60 64 0, Message note_off 0 0 1920,
       Message note_off 60 64 0]]"
proof -
  have r: "list_all2 (list_all2 resolves) [[''C4'']] [[60]]" "list_all2 resolves [] []"
    by (simp_all add: resolves_C4)
  have "track_of ([[''C4'']] @ ([] @ ''H4'' # []) # []) (Finite 2) 500000 480 =
          (Inl (ValueError ''Invalid note: H4''),
           MetaMessage_set_tempo 500000 0 # concat (map (chord_events 1920) [[60]]) @
             map (\<lambda>p. Message note_on p 64 0) [])"
    by (rule track_of_fail[OF r note_to_midi_H4 _ _ ticks_per_chord_reference]) simp_all
  then show ?thesis
    by (simp add: create_midi_track module_loaded_facts chord_events_def
        working_tracks_with_track[OF module_loaded_facts(1)])
qed






text \<open>
  C8, as amended: the sequencer checks no timing value itself and has no error of its
  own for one. A tempo of 0 raises \<^verbatim>\<open>ZeroDivisionError\<close> after the tempo message has been
  appended, and a negative tempo the MIDI library's \<^verbatim>\<open>ValueError\<close> when the tempo message
  is built: \<^verbatim>\<open>main.py\<close> then saves nothing, and \<^verbatim>\<open>chord_generator.py\<close> leaves in
  \<^verbatim>\<open>WORKING_MIDI\<close> a track with the tempo message, or an empty one, and no event. A chord
  duration of 0 is accepted by both and gives chords of 0 pulses. A chord duration \<open>x\<close>
  with \<open>- (2 powi 990) \<le> x \<le> - 1\<close> gives a negative number of pulses:
  \<^verbatim>\<open>chord_generator.py\<close> returns normally with markers of that negative time in the track,
  and \<^verbatim>\<open>main.py\<close> builds the same track and raises the library's \<^verbatim>\<open>ValueError\<close> in
  \<^verbatim>\<open>mid.save\<close>, which leaves a file with a header and no track (a progression with no
  chord has no marker and is saved). The resolution is not an argument.
\<close>

theorem timing_errors:
  "create_midi_main chords d f 0 fs = (Inl ZeroDivisionError, fs) \<and>
   create_midi chords d f 0 w = (Inl ZeroDivisionError, with_track w [MetaMessage_set_tempo 0 0]) \<and>
   (tmp < 0 \<longrightarrow>
      create_midi_main chords d f tmp fs =
        (Inl (ValueError ''attribute must be in range 0..16777215''), fs) \<and>
      create_midi chords d f tmp w =
        (Inl (ValueError ''attribute must be in range 0..16777215''), with_track w [])) \<and>
   (list_all2 (list_all2 resolves) chords pss \<and> 1 \<le> tmp \<and> tmp \<le> 0xFFFFFF \<and>
    ticks_per_beat (WORKING_MIDI w) = 480 \<longrightarrow>
      create_midi_main chords (Finite 0) f tmp fs =
        (Inr (), fs(f \<mapsto> \<lparr>resolution = 480,
           contents = [MetaMessage_set_tempo tmp 0 # concat (map (chord_events 0) pss)]\<rparr>)) \<and>
      create_midi chords (Finite 0) f tmp w =
        (Inr (), with_track w (MetaMessage_set_tempo tmp 0 # concat (map (chord_events 0) pss)))) \<and>
   (list_all2 (list_all2 resolves) chords pss \<and> 1 \<le> tmp \<and> tmp \<le> 0xFFFFFF \<and>
    ticks_per_beat (WORKING_MIDI w) = 480 \<and> x \<le> - 1 \<and> - (2 powi 990) \<le> x \<longrightarrow>
      (\<exists>tpc. tpc < 0 \<and> ticks_per_chord (Finite x) tmp 480 = Inr tpc \<and>
         create_midi_main chords (Finite x) f tmp fs =
           (if pss = []
            then (Inr (), fs(f \<mapsto> \<lparr>resolution = 480, contents = [[MetaMessage_set_tempo tmp 0]]\<rparr>))
            else (Inl (ValueError ''message time must be non-negative in MIDI file''),
                  fs(f \<mapsto> \<lparr>resolution = 480, contents = []\<rparr>))) \<and>
         create_midi chords (Finite x) f tmp w =
           (Inr (), with_track w (MetaMessage_set_tempo tmp 0 # concat (map (chord_events tpc) pss)))))"
proof -
  have 1: "create_midi_main chords d f 0 fs = (Inl ZeroDivisionError, fs)"
    by (simp add: create_midi_main_fst_snd track_of_zero_tempo_full)
  have 2: "create_midi chords d f 0 w =
      (Inl ZeroDivisionError, with_track w [MetaMessage_set_tempo 0 0])"
    by (simp add: create_midi_track track_of_zero_tempo_full)
  have 3: "create_midi_main chords d f tmp fs =
        (Inl (ValueError ''attribute must be in range 0..16777215''), fs) \<and>
      create_midi chords d f tmp w =
        (Inl (ValueError ''attribute must be in range 0..16777215''), with_track w [])"
    if "tmp < 0"
    by (simp add: create_midi_main_fst_snd create_midi_track track_of_negative_tempo_full[OF that])
  have 4: "create_midi_main chords (Finite 0) f tmp fs =
        (Inr (), fs(f \<mapsto> \<lparr>resolution = 480,
           contents = [MetaMessage_set_tempo tmp 0 # concat (map (chord_events 0) pss)]\<rparr>)) \<and>
      create_midi chords (Finite 0) f tmp w =
        (Inr (), with_track w (MetaMessage_set_tempo tmp 0 # concat (map (chord_events 0) pss)))"
    if a: "list_all2 (list_all2 resolves) chords pss" "1 \<le> tmp" "tmp \<le> 0xFFFFFF"
      "ticks_per_beat (WORKING_MIDI w) = 480"
  proof -
    have "0 \<le> tmp" using a(2) by simp
    then show ?thesis
      using both_sequencers_ok[OF a(1) _ a(3) ticks_per_chord_zero[OF a(2,3)] a(4), of f] by simp
  qed
  have 5: "\<exists>tpc. tpc < 0 \<and> ticks_per_chord (Finite x) tmp 480 = Inr tpc \<and>
         create_midi_main chords (Finite x) f tmp fs =
           (if pss = []
            then (Inr (), fs(f \<mapsto> \<lparr>resolution = 480, contents = [[MetaMessage_set_tempo tmp 0]]\<rparr>))
            else (Inl (ValueError ''message time must be non-negative in MIDI file''),
                  fs(f \<mapsto> \<lparr>resolution = 480, contents = []\<rparr>))) \<and>
         create_midi chords (Finite x) f tmp w =
           (Inr (), with_track w (MetaMessage_set_tempo tmp 0 # concat (map (chord_events tpc) pss)))"
    if a: "list_all2 (list_all2 resolves) chords pss" "1 \<le> tmp" "tmp \<le> 0xFFFFFF"
      "ticks_per_beat (WORKING_MIDI w) = 480" "x \<le> - 1" "- (2 powi 990) \<le> x"
  proof -
    obtain tpc where tpc: "ticks_per_chord (Finite x) tmp 480 = Inr tpc" "tpc < 0"
      using ticks_negative[OF a(2,3,5,6)] by blast
    have t0: "0 \<le> tmp" using a(2) by simp
    show ?thesis
      using tpc both_sequencers_ok[OF a(1) t0 a(3) tpc(1) a(4), of f]
      by (intro exI[of _ tpc]) auto
  qed
  show ?thesis using 1 2 3 4 5 by blast
qed

theorem timing_errors_witness:
  "(- 1 :: int) < 0 \<and>
   create_midi_main [[''C4'']] (Finite 2) ''progression.mid'' (- 1) Map.empty =
     (Inl (ValueError ''attribute must be in range 0..16777215''), Map.empty) \<and>
   create_midi_main [[''C4'']] (Finite 2) ''progression.mid'' 0 Map.empty =
     (Inl ZeroDivisionError, Map.empty) \<and>
   list_all2 (list_all2 resolves) [[''C4'']] [[60]] \<and>
   ticks_per_beat (WORKING_MIDI module_loaded) = 480 \<and>
   create_midi_main [[''C4'']] (Finite 0) ''progression.mid'' 1 Map.empty =
     (Inr (), [''progression.mid'' \<mapsto> \<lparr>resolution = 480,
          contents = [[MetaMessage_set_tempo 1 0, Message note_on 60 64 0,
                       Message note_off 0 0 0, Message note_off 60 64 0]]\<rparr>]) \<and>
   (- 2 :: rat) \<le> - 1 \<and> - (2 powi 990) \<le> (- 2 :: rat) \<and>
   ticks_per_chord (Finite (- 2)) 500000 480 = Inr (- 1920) \<and>
   create_midi_main [[''C4'']] (Finite (- 2)) ''progression.mid'' 500000 Map.empty =
     (Inl (ValueError ''message time must be non-negative in MIDI file''),
      [''progression.mid'' \<mapsto> \<lparr>resolution = 480, contents = []\<rparr>]) \<and>
   create_midi [[''C4'']] (Finite (- 2)) ''my_midi.mid'' 500000 module_loaded =
     (Inr (), with_track module_loaded
        [MetaMessage_set_tempo 500000 0, Message note_on 60 64 0,
         Message note_off 0 0 (- 1920), Message note_off 60 64 0])"
proof -
  have r: "list_all2 (list_all2 resolves) [[''C4'']] [[60]]" by (simp add: resolves_C4)
  note w = module_loaded_facts(3)
  note t1 = timing_errors[of "[[''C4'']]" "Finite 2" "''progression.mid''" Map.empty module_loaded
      "- 1" "[[60]]" "- 2"]
  note t2 = timing_errors[of "[[''C4'']]" "Finite 2" "''progression.mid''" Map.empty module_loaded
      1 "[[60]]" "- 2"]
  note t3 = timing_errors[of "[[''C4'']]" "Finite 2" "''progression.mid''" Map.empty module_loaded
      500000 "[[60]]" "- 2"]
  note t4 = timing_errors[of "[[''C4'']]" "Finite 2" "''my_midi.mid''" Map.empty module_loaded
      500000 "[[60]]" "- 2"]
  have 1: "create_midi_main [[''C4'']] (Finite 2) ''progression.mid'' (- 1) Map.empty =
     (Inl (ValueError ''attribute must be in range 0..16777215''), Map.empty)"
    using t1 by simp
  have 2: "create_midi_main [[''C4'']] (Finite 2) ''progression.mid'' 0 Map.empty =
     (Inl ZeroDivisionError, Map.empty)"
    using t1 by simp
  have 3: "create_midi_main [[''C4'']] (Finite 0) ''progression.mid'' 1 Map.empty =
     (Inr (), [''progression.mid'' \<mapsto> \<lparr>resolution = 480,
          contents = [MetaMessage_set_tempo 1 0 # concat (map (chord_events 0) [[60]])]\<rparr>])"
    using t2 r w by simp
  obtain tpc where 4: "ticks_per_chord (Finite (- 2)) 500000 480 = Inr tpc"
    "create_midi_main [[''C4'']] (Finite (- 2)) ''progression.mid'' 500000 Map.empty =
     (Inl (ValueError ''message time must be non-negative in MIDI file''),
      [''progression.mid'' \<mapsto> \<lparr>resolution = 480, contents = []\<rparr>])"
    using t3 r w minus_two_in_range by auto
  obtain tpc' where 5: "ticks_per_chord (Finite (- 2)) 500000 480 = Inr tpc'"
    "create_midi [[''C4'']] (Finite (- 2)) ''my_midi.mid'' 500000 module_loaded =
     (Inr (), with_track module_loaded
        (MetaMessage_set_tempo 500000 0 # concat (map (chord_events tpc') [[60]])))"
    using t4 r w minus_two_in_range by auto
  have t: "tpc' = - 1920" using 5(1) ticks_minus_two by simp
  show ?thesis
    using 1 2 3 4(2) 5(2) r w minus_two_in_range ticks_minus_two unfolding t
    by (simp add: chord_events_def)
qed

text \<open>
  C8 as stated fails at a chord duration of 0, where \<^verbatim>\<open>main.py\<close> saves the events of the
  chord with a marker of 0 pulses, and at a chord duration of -2.0, where
  \<^verbatim>\<open>chord_generator.py\<close> returns normally an event sequence with a marker of -1920
  pulses.
\<close>

theorem zero_duration_accepted:
  "create_midi_main [[''C4'']] (Finite 0) ''progression.mid'' 500000 Map.empty =
     (Inr (), [''progression.mid'' \<mapsto> \<lparr>resolution = 480,
          contents = [[MetaMessage_set_tempo 500000 0, Message note_on 60 64 0,
                       Message note_off 0 0 0, Message note_off 60 64 0]]\<rparr>]) \<and>
   create_midi [[''C4'']] (Finite (- 2)) ''my_midi.mid'' 500000 module_loaded =
     (Inr (), with_track module_loaded
        [MetaMessage_set_tempo 500000 0, Message note_on 60 64 0,
         Message note_off 0 0 (- 1920), Message note_off 60 64 0])"
proof -
  have r: "list_all2 (list_all2 resolves) [[''C4'']] [[60]]" by (simp add: resolves_C4)
  have t: "ticks_per_chord (Finite 0) 500000 480 = Inr 0" by (rule ticks_per_chord_zero) simp_all
  have 1: "track_of [[''C4'']] (Finite 0) 500000 480 =
      (Inr (), [MetaMessage_set_tempo 500000 0, Message note_on 60 64 0,
                Message note_off 0 0 0, Message note_off 60 64 0])"
    using track_of_ok[OF r _ _ t] by (simp add: chord_events_def)
  have 2: "track_of [[''C4'']] (Finite (- 2)) 500000 480 =
      (Inr (), [MetaMessage_set_tempo 500000 0, Message note_on 60 64 0,
                Message note_off 0 0 (- 1920), Message note_off 60 64 0])"
    using track_of_ok[OF r _ _ ticks_minus_two] by (simp add: chord_events_def)
  show ?thesis
    by (simp add: create_midi_main_fst_snd create_midi_track module_loaded_facts 1 2
        save_one_track)
qed

text \<open>
  C9, as amended: \<^verbatim>\<open>create_midi\<close> of \<^verbatim>\<open>chord_generator.py\<close> reads the resolution from the
  shared \<^verbatim>\<open>WORKING_MIDI\<close> and appends exactly one track to it in each call, leaving the
  earlier tracks and the resolution as they are; the outcome of the call and the new
  track depend on the arguments and that resolution only, so two calls with the same
  arguments add identical tracks. \<^verbatim>\<open>create_midi\<close> of \<^verbatim>\<open>main.py\<close> uses no shared state:
  it raises the same exception before saving, and otherwise hands the same track to
  \<^verbatim>\<open>mid.save\<close>.
\<close>

theorem sequencer_determinism:
  assumes "tracks_allocated w" and "tracks_allocated w2"
    and "ticks_per_beat (WORKING_MIDI w2) = ticks_per_beat (WORKING_MIDI w)"
  shows "working_tracks (snd (create_midi c d f t w)) =
           working_tracks w @ [snd (track_of c d t (ticks_per_beat (WORKING_MIDI w)))] \<and>
         working_tracks (snd (create_midi c d f t w2)) =
           working_tracks w2 @ [snd (track_of c d t (ticks_per_beat (WORKING_MIDI w)))] \<and>
         fst (create_midi c d f t w2) = fst (create_midi c d f t w) \<and>
         tracks_allocated (snd (create_midi c d f t w)) \<and>
         ticks_per_beat (WORKING_MIDI (snd (create_midi c d f t w))) =
           ticks_per_beat (WORKING_MIDI w) \<and>
         (ticks_per_beat (WORKING_MIDI w) = 480 \<longrightarrow>
            create_midi_main c d f t fs =
              (case fst (create_midi c d f t w) of
                 Inl e \<Rightarrow> (Inl e, fs)
               | Inr u \<Rightarrow>
                   save \<lparr>ticks_per_beat = 480, tracks = [0]\<rparr>
                     [snd (track_of c d t (ticks_per_beat (WORKING_MIDI w)))] f fs))"
  using assms
  by (simp add: create_midi_track create_midi_main_fst_snd working_tracks_with_track
      tracks_allocated_with_track with_track_resolution cong: sum.case_cong)

theorem sequencer_determinism_witness:
  "tracks_allocated module_loaded \<and>
   tracks_allocated (snd (create_midi [[''C4'']] (Finite 2) ''my_midi.mid'' 500000 module_loaded)) \<and>
   ticks_per_beat (WORKING_MIDI (snd (create_midi [[''C4'']] (Finite 2) ''my_midi.mid'' 500000
       module_loaded))) = ticks_per_beat (WORKING_MIDI module_loaded) \<and>
   fst (create_midi [[''C4'']] (Finite 2) ''my_midi.mid'' 500000
         (snd (create_midi [[''C4'']] (Finite 2) ''my_midi.mid'' 500000 module_loaded))) =
     fst (create_midi [[''C4'']] (Finite 2) ''my_midi.mid'' 500000 module_loaded) \<and>
   working_tracks (snd (create_midi [[''C4'']] (Finite 2) ''my_midi.mid'' 500000
         (snd (create_midi [[''C4'']] (Finite 2) ''my_midi.mid'' 500000 module_loaded)))) =
     [[MetaMessage_set_tempo 500000 0, Message note_on 60 64 0,
       Message note_off 0 0 1920, Message note_off 60 64 0],
      [MetaMessage_set_tempo 500000 0, Message note_on 60 64 0,
       Message note_off 0 0 1920, Message note_off 60 64 0]]"
proof -
  define w2 where "w2 = snd (create_midi [[''C4'']] (Finite 2) ''my_midi.mid'' 500000 module_loaded)"
  have a: "tracks_allocated module_loaded" by (rule module_loaded_facts(1))
  have w2: "w2 = with_track module_loaded
        [MetaMessage_set_tempo 500000 0, Message note_on 60 64 0,
         Message note_off 0 0 1920, Message note_off 60 64 0]"
    by (simp add: w2_def first_call)
  have b: "tracks_allocated w2" unfolding w2 using a by (rule tracks_allocated_with_track)
  have c: "ticks_per_beat (WORKING_MIDI w2) = ticks_per_beat (WORKING_MIDI module_loaded)"
    unfolding w2 by (rule with_track_resolution)
  have t: "working_tracks w2 = [[MetaMessage_set_tempo 500000 0, Message note_on 60 64 0,
         Message note_off 0 0 1920, Message note_off 60 64 0]]"
    unfolding w2 by (simp add: working_tracks_with_track[OF a] module_loaded_facts)
  note s = sequencer_determinism[OF a b c, of "[[''C4'']]" "Finite 2" "''my_midi.mid''" 500000]
  have "working_tracks (snd (create_midi [[''C4'']] (Finite 2) ''my_midi.mid'' 500000 w2)) =
      working_tracks w2 @ [snd (track_of [[''C4'']] (Finite 2) 500000 480)]"
    using s by (simp add: module_loaded_facts)
  then have 1: "working_tracks (snd (create_midi [[''C4'']] (Finite 2) ''my_midi.mid'' 500000 w2)) =
     [[MetaMessage_set_tempo 500000 0, Message note_on 60 64 0,
       Message note_off 0 0 1920, Message note_off 60 64 0],
      [MetaMessage_set_tempo 500000 0, Message note_on 60 64 0,
       Message note_off 0 0 1920, Message note_off 60 64 0]]"
    by (simp add: t track_of_C4)
  have 2: "fst (create_midi [[''C4'']] (Finite 2) ''my_midi.mid'' 500000 w2) =
     fst (create_midi [[''C4'']] (Finite 2) ''my_midi.mid'' 500000 module_loaded)"
    using s by simp
  show ?thesis using a b c 1 2 unfolding w2_def by simp
qed

text \<open>
  C9 as stated fails for \<^verbatim>\<open>chord_generator.py\<close>: a call changes \<^verbatim>\<open>WORKING_MIDI\<close>, and the
  track of the first call is still there, before the new one, after the second.
\<close>

theorem tracks_accumulate:
  "working_tracks module_loaded = [] \<and>
   working_tracks (snd (create_midi [[''C4'']] (Finite 2) ''my_midi.mid'' 500000 module_loaded)) =
     [[MetaMessage_set_tempo 500000 0, Message note_on 60 64 0,
       Message note_off 0 0 1920, Message note_off 60 64 0]] \<and>
   working_tracks (snd (create_midi [[''C4'']] (Finite 2) ''my_midi.mid'' 500000
         (snd (create_midi [[''C4'']] (Finite 2) ''my_midi.mid'' 500000 module_loaded)))) =
     [[MetaMessage_set_tempo 500000 0, Message note_on 60 64 0,
       Message note_off 0 0 1920, Message note_off 60 64 0],
      [MetaMessage_set_tempo 500000 0, Message note_on 60 64 0,
       Message note_off 0 0 1920, Message note_off 60 64 0]]"
proof -
  have a: "tracks_allocated module_loaded" by (rule module_loaded_facts(1))
  have b: "tracks_allocated (with_track module_loaded
        [MetaMessage_set_tempo 500000 0, Message note_on 60 64 0,
         Message note_off 0 0 1920, Message note_off 60 64 0])"
    using a by (rule tracks_allocated_with_track)
  show ?thesis
    by (simp add: first_call create_midi_track with_track_resolution module_loaded_facts
        track_of_C4 working_tracks_with_track[OF a] working_tracks_with_track[OF b])
qed

text \<open>
  C10: for every integer octave \<open>o\<close>, \<^verbatim>\<open>"Cb" + str(o)\<close> resolves inside the written
  octave: to \<open>12 * (o + 1) + 11\<close>, the pitch of \<^verbatim>\<open>"B" + str(o)\<close>, which is twelve above
  \<open>12 * (o + 1) - 1\<close>, the pitch one semitone under the C of that octave.
\<close>

theorem c_flat_same_octave:
  "note_to_midi (''Cb'' @ py_str i) = Inr (12 * (i + 1) + 11) \<and>
   note_to_midi (''B'' @ py_str i) = Inr (12 * (i + 1) + 11) \<and>
   note_to_midi (''Cb'' @ py_str i) = map_sum id (\<lambda>p. p - 1 + 12) (note_to_midi (''C'' @ py_str i))"
proof -
  have s: "\<not> isspace CHR ''C''" "\<not> isspace CHR ''B''" by (simp_all add: isspace_def)
  have 1: "strip (''Cb'' @ py_str i) = CHR ''C'' # ''b'' @ py_str i"
    using strip_token[of "[]" "[]" "CHR ''C''" "''b''" i] s by simp
  have 2: "strip (''B'' @ py_str i) = CHR ''B'' # [] @ py_str i"
    using strip_token[of "[]" "[]" "CHR ''B''" "[]" i] s by simp
  have 3: "strip (''C'' @ py_str i) = CHR ''C'' # [] @ py_str i"
    using strip_token[of "[]" "[]" "CHR ''C''" "[]" i] s by simp
  show ?thesis
    using note_to_midi_stripped[OF 1] note_to_midi_stripped[OF 2] note_to_midi_stripped[OF 3]
    by (simp add: note_base_def upper_def)
qed

end
